theory Spec2Isabelle
  imports Main "HOL-Library.Sublist"
begin

section \<open>The payload: untyped JSON values and the Python operations on them\<close>

text \<open>
  \<^verbatim>\<open>notion_to_md.py\<close> treats the payload returned by \<^verbatim>\<open>json.loads\<close> as an untyped tree.
  A dictionary is an association list in insertion order (keys of a parsed JSON object are
  strings); numbers are the integers (floating-point numbers play no role in the fields read
  by the converter and are left out). Strings are byte strings.
\<close>

datatype json =
  JNull
| JBool bool
| JInt int
| JStr string
| JList "json list"
| JObj "(string \<times> json) list"

text \<open>The exceptions the converter can raise on a value of the wrong shape.\<close>

datatype py_error = TypeError | AttributeError | IndexError | KeyError | RecursionError | OSError

type_synonym 'a result = "py_error + 'a"

definition bind :: "'a result \<Rightarrow> ('a \<Rightarrow> 'b result) \<Rightarrow> 'b result" where
  "bind m f = (case m of Inl e \<Rightarrow> Inl e | Inr x \<Rightarrow> f x)"

text \<open>
  The standard-library and third-party functions the converter calls are parameters:
  \<^verbatim>\<open>requests\<close>/\<^verbatim>\<open>BeautifulSoup\<close> behind \<^verbatim>\<open>download_page\<close> and \<^verbatim>\<open>extract_json_data\<close>,
  \<^verbatim>\<open>slugify\<close>, \<^verbatim>\<open>urlparse\<close> (only \<^verbatim>\<open>scheme://netloc\<close> is used), \<^verbatim>\<open>urllib.parse.quote\<close> on a
  string, \<^verbatim>\<open>str.lower\<close>, \<^verbatim>\<open>os.path.join\<close>, the \<^verbatim>\<open>repr\<close> of a list or dictionary inside an
  f-string, and whether writing a file raises.
\<close>

record world =
  download_page :: "string \<Rightarrow> string option"
  extract_json_data :: "string \<Rightarrow> json option"
  slugify :: "string \<Rightarrow> string"
  url_domain :: "string \<Rightarrow> string"
  quote_str :: "string \<Rightarrow> string"
  str_lower :: "string \<Rightarrow> string"
  path_join :: "string list \<Rightarrow> string"
  repr_compound :: "json \<Rightarrow> string"
  write_fails :: "string \<Rightarrow> bool"

text \<open>Truth value of a Python object (\<^verbatim>\<open>if x\<close>, \<^verbatim>\<open>not x\<close>, \<^verbatim>\<open>x or y\<close>).\<close>

fun truthy :: "json \<Rightarrow> bool" where
  "truthy JNull = False"
| "truthy (JBool b) = b"
| "truthy (JInt n) = (n \<noteq> 0)"
| "truthy (JStr s) = (s \<noteq> [])"
| "truthy (JList xs) = (xs \<noteq> [])"
| "truthy (JObj kvs) = (kvs \<noteq> [])"

text \<open>\<^verbatim>\<open>d.get(k, default)\<close>: only a dictionary has the method.\<close>

fun dict_get :: "json \<Rightarrow> string \<Rightarrow> json \<Rightarrow> json result" where
  "dict_get (JObj kvs) k dflt = Inr (case map_of kvs k of Some v \<Rightarrow> v | None \<Rightarrow> dflt)"
| "dict_get _ k dflt = Inl AttributeError"

text \<open>\<^verbatim>\<open>d[k]\<close> with a string key: \<^verbatim>\<open>KeyError\<close> on a dictionary without the key,
  \<^verbatim>\<open>TypeError\<close> on anything that is not a dictionary.\<close>

fun subscript :: "json \<Rightarrow> string \<Rightarrow> json result" where
  "subscript (JObj kvs) k = (case map_of kvs k of Some v \<Rightarrow> Inr v | None \<Rightarrow> Inl KeyError)"
| "subscript _ k = Inl TypeError"

fun contains :: "string \<Rightarrow> string \<Rightarrow> bool" where
  "contains k [] = (k = [])"
| "contains k (c # cs) = (prefix k (c # cs) \<or> contains k cs)"

text \<open>\<^verbatim>\<open>k in c\<close> for a string \<open>k\<close>: key of a dictionary, element of a list, substring of a
  string; \<^verbatim>\<open>TypeError\<close> on a value that is not a container.\<close>

fun py_in_str :: "string \<Rightarrow> json \<Rightarrow> bool result" where
  "py_in_str k (JObj kvs) = Inr (k \<in> set (map fst kvs))"
| "py_in_str k (JList xs) = Inr (JStr k \<in> set xs)"
| "py_in_str k (JStr s) = Inr (contains k s)"
| "py_in_str k _ = Inl TypeError"

text \<open>
  \<^verbatim>\<open>if c in blocks\<close> followed by \<^verbatim>\<open>blocks[c]\<close> for a dictionary \<open>blocks\<close> and any value \<open>c\<close>:
  a list or dictionary is unhashable (\<^verbatim>\<open>TypeError\<close>), a string is looked up, and any other
  value is no key of a parsed JSON object.
\<close>

fun lookup_block :: "(string \<times> json) list \<Rightarrow> json \<Rightarrow> (string \<times> json) option result" where
  "lookup_block blocks (JStr k) =
     Inr (case map_of blocks k of Some bd \<Rightarrow> Some (k, bd) | None \<Rightarrow> None)"
| "lookup_block blocks (JList xs) = Inl TypeError"
| "lookup_block blocks (JObj kvs) = Inl TypeError"
| "lookup_block blocks _ = Inr None"

text \<open>\<^verbatim>\<open>for x in v\<close>: the elements of a list, the keys of a dictionary, the characters of a
  string; \<^verbatim>\<open>TypeError\<close> otherwise.\<close>

fun py_iter :: "json \<Rightarrow> json list result" where
  "py_iter (JList xs) = Inr xs"
| "py_iter (JObj kvs) = Inr (map (\<lambda>kv. JStr (fst kv)) kvs)"
| "py_iter (JStr s) = Inr (map (\<lambda>c. JStr [c]) s)"
| "py_iter _ = Inl TypeError"

fun show_nat :: "nat \<Rightarrow> string" where
  "show_nat n =
     (if n < 10 then [''0123456789'' ! n]
      else show_nat (n div 10) @ [''0123456789'' ! (n mod 10)])"

declare show_nat.simps [simp del]

text \<open>What an f-string writes for \<^verbatim>\<open>{x}\<close>, that is \<^verbatim>\<open>str(x)\<close>.\<close>

fun py_str :: "world \<Rightarrow> json \<Rightarrow> string" where
  "py_str w JNull = ''None''"
| "py_str w (JBool b) = (if b then ''True'' else ''False'')"
| "py_str w (JInt n) = (if n < 0 then ''-'' @ show_nat (nat (- n)) else show_nat (nat n))"
| "py_str w (JStr s) = s"
| "py_str w (JList xs) = repr_compound w (JList xs)"
| "py_str w (JObj kvs) = repr_compound w (JObj kvs)"

text \<open>\<^verbatim>\<open>sep.join(xs)\<close> for strings, and \<^verbatim>\<open>''.join(result)\<close> for a list that may hold a value
  that is not a string (\<^verbatim>\<open>TypeError\<close>).\<close>

fun py_join :: "string \<Rightarrow> string list \<Rightarrow> string" where
  "py_join sep [] = []"
| "py_join sep [x] = x"
| "py_join sep (x # y # ys) = x @ sep @ py_join sep (y # ys)"

fun join_values :: "json list \<Rightarrow> string result" where
  "join_values [] = Inr []"
| "join_values (JStr s # vs) = bind (join_values vs) (\<lambda>r. Inr (s @ r))"
| "join_values (_ # vs) = Inl TypeError"

definition nl :: string where
  "nl = [CHR 0x0A]"

section \<open>Rich text: \<^verbatim>\<open>extract_text_from_property\<close> and \<^verbatim>\<open>extract_formatted_text\<close>\<close>

text \<open>One pass of the loop body of \<^verbatim>\<open>extract_text_from_property\<close>: what the item appends.\<close>

fun plain_item :: "json \<Rightarrow> json list" where
  "plain_item (JList (x # xs)) = [x]"
| "plain_item (JList []) = []"
| "plain_item (JStr s) = [JStr s]"
| "plain_item _ = []"

definition extract_text_from_property :: "json \<Rightarrow> string result" where
  "extract_text_from_property property_value =
     (if \<not> truthy property_value then Inr ''''
      else bind (py_iter property_value) (\<lambda>items. join_values (concat (map plain_item items))))"

text \<open>
  One format marker applied to the text so far. The link test is
  \<^verbatim>\<open>isinstance(fmt, list) and fmt[0] == 'a' and len(fmt) > 1\<close>, so an empty list raises
  \<^verbatim>\<open>IndexError\<close>; a marker that matches no case leaves the text as it is.
\<close>

fun apply_format :: "world \<Rightarrow> json \<Rightarrow> json \<Rightarrow> json result" where
  "apply_format w text fmt =
     (if fmt = JStr ''b'' then Inr (JStr (''**'' @ py_str w text @ ''**''))
      else if fmt = JStr ''i'' then Inr (JStr (''*'' @ py_str w text @ ''*''))
      else if fmt = JStr ''s'' then Inr (JStr (''~~'' @ py_str w text @ ''~~''))
      else if fmt = JStr ''c'' then Inr (JStr (''`'' @ py_str w text @ ''`''))
      else (case fmt of
              JList [] \<Rightarrow> Inl IndexError
            | JList (h # t) \<Rightarrow>
                (if h = JStr ''a'' \<and> t \<noteq> []
                 then Inr (JStr (''['' @ py_str w text @ '']('' @ py_str w (hd t) @ '')''))
                 else Inr text)
            | _ \<Rightarrow> Inr text))"

text \<open>\<^verbatim>\<open>for fmt in formats\<close>: the markers are applied in the order of the list.\<close>

fun apply_formats :: "world \<Rightarrow> json \<Rightarrow> json list \<Rightarrow> json result" where
  "apply_formats w text [] = Inr text"
| "apply_formats w text (fmt # fmts) =
     bind (apply_format w text fmt) (\<lambda>text'. apply_formats w text' fmts)"

text \<open>One pass of the loop body of \<^verbatim>\<open>extract_formatted_text\<close>: what the item appends.\<close>

fun format_item :: "world \<Rightarrow> json \<Rightarrow> json list result" where
  "format_item w (JList (text # JList formats # rest)) =
     bind (apply_formats w text formats) (\<lambda>t. Inr [t])"
| "format_item w (JList (text # rest)) = Inr [text]"
| "format_item w _ = Inr []"

fun format_items :: "world \<Rightarrow> json list \<Rightarrow> json list result" where
  "format_items w [] = Inr []"
| "format_items w (item # items) =
     bind (format_item w item) (\<lambda>r. bind (format_items w items) (\<lambda>rs. Inr (r @ rs)))"

definition extract_formatted_text :: "world \<Rightarrow> json \<Rightarrow> string result" where
  "extract_formatted_text w property_value =
     (if \<not> truthy property_value then Inr ''''
      else bind (py_iter property_value)
             (\<lambda>items. bind (format_items w items) join_values))"

section \<open>Blocks\<close>

text \<open>
  The head of \<^verbatim>\<open>process_block\<close>: \<^verbatim>\<open>None\<close> is the early \<^verbatim>\<open>return []\<close> of a block entry without
  \<^verbatim>\<open>"value"\<close>; otherwise the block, its type, its properties and its content identifiers.
\<close>

definition open_block :: "json \<Rightarrow> (json \<times> json \<times> json \<times> json) option result" where
  "open_block block_data =
     bind (py_in_str ''value'' block_data) (\<lambda>present.
       if \<not> present then Inr None
       else
         bind (subscript block_data ''value'') (\<lambda>v.
         bind (dict_get v ''value'' (JObj [])) (\<lambda>block.
         bind (dict_get block ''type'' JNull) (\<lambda>block_type.
         bind (dict_get block ''properties'' (JObj [])) (\<lambda>block_properties.
         bind (dict_get block ''content'' (JList [])) (\<lambda>block_content_ids.
           Inr (Some (block, block_type, block_properties, block_content_ids))))))))"

text \<open>\<^verbatim>\<open>self.extract_formatted_text(block_properties.get(name, []))\<close> and its plain-text
  counterpart.\<close>

definition formatted_property :: "world \<Rightarrow> json \<Rightarrow> string \<Rightarrow> string result" where
  "formatted_property w block_properties name =
     bind (dict_get block_properties name (JList [])) (extract_formatted_text w)"

definition plain_property :: "json \<Rightarrow> string \<Rightarrow> string result" where
  "plain_property block_properties name =
     bind (dict_get block_properties name (JList [])) extract_text_from_property"

text \<open>\<^verbatim>\<open>blocks.get(k, {})\<close> for any value \<open>k\<close>, and
  \<^verbatim>\<open>blocks[k].get('value', {}).get('value', {})\<close>.\<close>

fun blocks_get :: "(string \<times> json) list \<Rightarrow> json \<Rightarrow> json result" where
  "blocks_get blocks (JStr k) = Inr (case map_of blocks k of Some bd \<Rightarrow> bd | None \<Rightarrow> JObj [])"
| "blocks_get blocks (JList xs) = Inl TypeError"
| "blocks_get blocks (JObj kvs) = Inl TypeError"
| "blocks_get blocks _ = Inr (JObj [])"

definition inner_block :: "json \<Rightarrow> json result" where
  "inner_block block_data =
     bind (dict_get block_data ''value'' (JObj [])) (\<lambda>v. dict_get v ''value'' (JObj []))"

subsection \<open>Images\<close>

text \<open>\<^verbatim>\<open>while source and type(source) == list: source = source[0] if len(source) > 0 else None\<close>:
  a non-empty list is replaced by its first element; the loop stops at an empty list, which
  is false, and at anything that is not a list.\<close>

fun unwrap :: "json \<Rightarrow> json" where
  "unwrap (JList (x # xs)) = unwrap x"
| "unwrap v = v"

text \<open>\<^verbatim>\<open>quote(source, '')\<close>: \<^verbatim>\<open>urllib.parse.quote\<close> encodes a string; any other value that is
  not a byte string reaches \<^verbatim>\<open>quote_from_bytes\<close>, which raises \<^verbatim>\<open>TypeError\<close>.\<close>

fun py_quote :: "world \<Rightarrow> json \<Rightarrow> string result" where
  "py_quote w (JStr s) = Inr (quote_str w s)"
| "py_quote w _ = Inl TypeError"

definition render_image ::
  "world \<Rightarrow> json \<Rightarrow> (string \<times> json) list \<Rightarrow> string \<Rightarrow> json \<Rightarrow> string list result" where
  "render_image w root_page_id blocks block_id block_properties =
     bind (dict_get block_properties ''source'' (JList [])) (\<lambda>source0.
     bind (dict_get block_properties ''caption'' (JList [])) (\<lambda>caption0.
     bind (blocks_get blocks root_page_id) (\<lambda>root_entry.
     bind (dict_get root_entry ''spaceId'' (JStr '''')) (\<lambda>space_id.
     bind (py_quote w (unwrap source0)) (\<lambda>quoted.
       let caption = unwrap caption0;
           source = ''https://mask.notion.site/image/'' @ quoted @ ''?table=block&id='' @ block_id
                    @ ''&spaceId='' @ py_str w space_id @ ''&width=1420&userId=&cache=v2''
       in Inr (if source \<noteq> []
               then [''!['' @ py_str w caption @ '']('' @ source @ '')'']
                    @ (if truthy caption then [''*'' @ py_str w caption @ ''*''] else [])
               else []))))))"

subsection \<open>Leaf blocks with a check box, a fence or a link\<close>

definition render_to_do :: "world \<Rightarrow> json \<Rightarrow> json \<Rightarrow> string list result" where
  "render_to_do w block block_properties =
     bind (formatted_property w block_properties ''title'') (\<lambda>text.
     bind (dict_get block ''checked'' (JBool False)) (\<lambda>checked.
       Inr [(if truthy checked then ''[x]'' else ''[ ]'') @ '' '' @ text]))"

definition render_code :: "world \<Rightarrow> json \<Rightarrow> string list result" where
  "render_code w block_properties =
     bind (plain_property block_properties ''title'') (\<lambda>code.
     bind (plain_property block_properties ''language'') (\<lambda>language.
       Inr [''```'' @ (if language \<noteq> [] then str_lower w language else '''') @ nl @ code @ nl
            @ ''```'']))"

definition render_bookmark :: "world \<Rightarrow> json \<Rightarrow> json \<Rightarrow> string list result" where
  "render_bookmark w block block_properties =
     bind (dict_get block ''link'' (JStr '''')) (\<lambda>link.
     bind (formatted_property w block_properties ''title'') (\<lambda>t.
     bind (formatted_property w block_properties ''description'') (\<lambda>description.
       Inr (if truthy link
            then [''['' @ (if t \<noteq> [] then t else py_str w link) @ '']('' @ py_str w link @ '')'']
                 @ (if description \<noteq> [] then [''> '' @ description] else [])
            else []))))"

subsection \<open>Tables\<close>

text \<open>The inner loop: the rendered title of every cell identifier found in the block table.\<close>

fun table_row_cells :: "world \<Rightarrow> (string \<times> json) list \<Rightarrow> json list \<Rightarrow> string list result" where
  "table_row_cells w blocks [] = Inr []"
| "table_row_cells w blocks (cell_id # cell_ids) =
     bind (lookup_block blocks cell_id) (\<lambda>found.
       case found of
         None \<Rightarrow> table_row_cells w blocks cell_ids
       | Some (k, cell_data) \<Rightarrow>
           bind (inner_block cell_data) (\<lambda>cell_block.
           bind (dict_get cell_block ''properties'' (JObj [])) (\<lambda>props.
           bind (formatted_property w props ''title'') (\<lambda>cell_text.
           bind (table_row_cells w blocks cell_ids) (\<lambda>row_cells. Inr (cell_text # row_cells))))))"

text \<open>The cells of one row block.\<close>

definition table_row :: "world \<Rightarrow> (string \<times> json) list \<Rightarrow> json \<Rightarrow> string list result" where
  "table_row w blocks row_data =
     bind (inner_block row_data) (\<lambda>row_block.
     bind (dict_get row_block ''content'' (JList [])) (\<lambda>row_content_ids.
     bind (py_iter row_content_ids) (table_row_cells w blocks)))"

text \<open>The outer loop, with its two variables \<^verbatim>\<open>header_row\<close> and \<^verbatim>\<open>table_rows\<close>.\<close>

fun table_rows_loop ::
  "world \<Rightarrow> (string \<times> json) list \<Rightarrow> json list \<Rightarrow> string list \<Rightarrow> string list list
     \<Rightarrow> (string list \<times> string list list) result" where
  "table_rows_loop w blocks [] header_row table_rows = Inr (header_row, table_rows)"
| "table_rows_loop w blocks (child_id # child_ids) header_row table_rows =
     bind (lookup_block blocks child_id) (\<lambda>found.
       case found of
         None \<Rightarrow> table_rows_loop w blocks child_ids header_row table_rows
       | Some (k, row_data) \<Rightarrow>
           bind (table_row w blocks row_data) (\<lambda>row_cells.
             if header_row = [] \<and> row_cells \<noteq> []
             then table_rows_loop w blocks child_ids row_cells table_rows
             else table_rows_loop w blocks child_ids header_row (table_rows @ [row_cells])))"

text \<open>\<^verbatim>\<open>while len(row) < len(header_row): row.append('')\<close>.\<close>

function pad_row :: "nat \<Rightarrow> string list \<Rightarrow> string list" where
  "pad_row n row = (if length row < n then pad_row n (row @ ['''']) else row)"
  by pat_completeness auto
termination
  by (relation "measure (\<lambda>(n, row). n - length row)") auto

declare pad_row.simps [simp del]

definition table_markdown :: "string list \<Rightarrow> string list list \<Rightarrow> string list" where
  "table_markdown header_row table_rows =
     (if header_row \<noteq> []
      then [py_join nl
              ([py_join '' | '' header_row,
                py_join '' | '' (replicate (length header_row) ''---'')]
               @ map (\<lambda>row. py_join '' | '' (pad_row (length header_row) row)) table_rows)]
      else [])"

definition render_table ::
  "world \<Rightarrow> (string \<times> json) list \<Rightarrow> json \<Rightarrow> string list result" where
  "render_table w blocks block_content_ids =
     bind (py_iter block_content_ids) (\<lambda>child_ids.
     bind (table_rows_loop w blocks child_ids [] []) (\<lambda>(header_row, table_rows).
       Inr (table_markdown header_row table_rows)))"

text \<open>
  For the statement of properties: the cells of every row block found in the block table,
  in the order of the table's content identifiers (the rows the loop above meets, before it
  tells header from body).
\<close>

fun table_rows :: "world \<Rightarrow> (string \<times> json) list \<Rightarrow> json list \<Rightarrow> string list list result" where
  "table_rows w blocks [] = Inr []"
| "table_rows w blocks (child_id # child_ids) =
     bind (lookup_block blocks child_id) (\<lambda>found.
       case found of
         None \<Rightarrow> table_rows w blocks child_ids
       | Some (k, row_data) \<Rightarrow>
           bind (table_row w blocks row_data) (\<lambda>row_cells.
           bind (table_rows w blocks child_ids) (\<lambda>rows. Inr (row_cells # rows))))"

section \<open>The converter: \<^verbatim>\<open>process_block\<close>, \<^verbatim>\<open>extract_page_content\<close>, \<^verbatim>\<open>process_page\<close>\<close>

text \<open>
  The fields of \<^verbatim>\<open>NotionToMarkdown\<close>. \<^verbatim>\<open>page_data\<close> is a dictionary in insertion order, from a
  page block's identifier to its title and \<^verbatim>\<open>parent_id\<close>. Two logs record the effects on the
  outside: \<open>downloads\<close> lists the URLs passed to \<^verbatim>\<open>download_page\<close>, in order, and \<open>files\<close> the
  Markdown files written.
\<close>

record converter =
  output_dir :: string
  single_mode :: bool
  visited_pages :: "string set"
  page_data :: "(string \<times> string \<times> json) list"
  downloads :: "string list"
  files :: "(string \<times> string) list"

record page_content =
  title :: string
  content :: string
  subpages :: "string list"

definition init_converter :: "string \<Rightarrow> bool \<Rightarrow> converter" where
  "init_converter dir single =
     \<lparr>output_dir = dir, single_mode = single, visited_pages = {}, page_data = [],
      downloads = [], files = []\<rparr>"

text \<open>\<^verbatim>\<open>d[k] = v\<close> on a dictionary in insertion order: a key already present keeps its place.\<close>

fun dict_set :: "'k \<Rightarrow> 'v \<Rightarrow> ('k \<times> 'v) list \<Rightarrow> ('k \<times> 'v) list" where
  "dict_set k v [] = [(k, v)]"
| "dict_set k v (p # ps) = (if fst p = k then (k, v) # ps else p # dict_set k v ps)"

definition register_page :: "string \<Rightarrow> string \<Rightarrow> json \<Rightarrow> converter \<Rightarrow> converter" where
  "register_page page_id page_title root_page_id st =
     st\<lparr>page_data := dict_set page_id (page_title, root_page_id) (page_data st)\<rparr>"

text \<open>
  A \<^verbatim>\<open>for\<close> loop whose body extends a list (\<^verbatim>\<open>acc += body(x)\<close>) and may change the converter;
  an exception leaves the loop with the converter as it is at that moment.
\<close>

fun for_each ::
  "('a \<Rightarrow> 's \<Rightarrow> 'b list result \<times> 's) \<Rightarrow> 'a list \<Rightarrow> 'b list \<Rightarrow> 's \<Rightarrow> 'b list result \<times> 's" where
  "for_each body [] acc st = (Inr acc, st)"
| "for_each body (x # xs) acc st =
     (case body x st of
        (Inl e, st') \<Rightarrow> (Inl e, st')
      | (Inr out, st') \<Rightarrow> for_each body xs (acc @ out) st')"

text \<open>The body \<^verbatim>\<open>if child_id in blocks: acc += f(child_id, blocks[child_id])\<close>.\<close>

definition on_block ::
  "(string \<Rightarrow> json \<Rightarrow> 's \<Rightarrow> 'b list result \<times> 's) \<Rightarrow> (string \<times> json) list \<Rightarrow> json \<Rightarrow> 's
     \<Rightarrow> 'b list result \<times> 's" where
  "on_block f blocks child_id st =
     (case lookup_block blocks child_id of
        Inl e \<Rightarrow> (Inl e, st)
      | Inr None \<Rightarrow> (Inr [], st)
      | Inr (Some (k, block_data)) \<Rightarrow> f k block_data st)"

text \<open>The scan \<^verbatim>\<open>for block_id, block_data in blocks.items()\<close> of \<^verbatim>\<open>extract_page_content\<close>: the
  first entry with \<^verbatim>\<open>block_data['value'].get('type') == 'page'\<close>.\<close>

fun find_page_block :: "(string \<times> json) list \<Rightarrow> string option result" where
  "find_page_block [] = Inr None"
| "find_page_block ((block_id, block_data) # rest) =
     bind (py_in_str ''value'' block_data) (\<lambda>present.
       if \<not> present then find_page_block rest
       else
         bind (subscript block_data ''value'') (\<lambda>v.
         bind (dict_get v ''type'' JNull) (\<lambda>t.
           if t = JStr ''page'' then Inr (Some block_id) else find_page_block rest)))"

text \<open>
  The root page identifier after
  \<^verbatim>\<open>if not root_page_id or root_page_id not in blocks: <scan>\<close>, for a block table that is a
  dictionary. The scan overwrites the identifier only when it finds a block.
\<close>

definition find_root :: "json \<Rightarrow> (string \<times> json) list \<Rightarrow> json result" where
  "find_root page_id blocks =
     bind (if \<not> truthy page_id then Inr True
           else bind (lookup_block blocks page_id) (\<lambda>found. Inr (found = None)))
       (\<lambda>scan.
          if scan
          then bind (find_page_block blocks)
                 (\<lambda>found. Inr (case found of Some block_id \<Rightarrow> JStr block_id | None \<Rightarrow> page_id))
          else Inr page_id)"

text \<open>
  A block table that is not a dictionary makes \<^verbatim>\<open>extract_page_content\<close> raise on every path,
  before anything is rendered: \<^verbatim>\<open>root_page_id not in blocks\<close> raises \<^verbatim>\<open>TypeError\<close> when the
  identifier is true and the table is no container, or is a string and the identifier is
  not; otherwise \<^verbatim>\<open>blocks.items()\<close> or \<^verbatim>\<open>blocks.get\<close> raises \<^verbatim>\<open>AttributeError\<close>.
\<close>

fun no_block_table :: "json \<Rightarrow> json \<Rightarrow> py_error" where
  "no_block_table page_id (JList xs) = AttributeError"
| "no_block_table page_id (JStr s) =
     (if truthy page_id then (case page_id of JStr k \<Rightarrow> AttributeError | _ \<Rightarrow> TypeError)
      else AttributeError)"
| "no_block_table page_id _ = (if truthy page_id then TypeError else AttributeError)"

text \<open>The root block's plain title and its content identifiers.\<close>

definition root_title_and_content ::
  "(string \<times> json) list \<Rightarrow> json \<Rightarrow> (string \<times> json list) result" where
  "root_title_and_content blocks root_page_id =
     bind (blocks_get blocks root_page_id) (\<lambda>root_entry.
     bind (inner_block root_entry) (\<lambda>root_block.
     bind (dict_get root_block ''properties'' (JObj [])) (\<lambda>props.
     bind (plain_property props ''title'') (\<lambda>t.
     bind (dict_get root_block ''content'' (JList [])) (\<lambda>content_ids.
     bind (py_iter content_ids) (\<lambda>ids. Inr (t, ids)))))))"

text \<open>\<^verbatim>\<open>data['recordMap']['block']\<close>, read again by \<^verbatim>\<open>process_page\<close> after a successful
  extraction (the table is a dictionary then).\<close>

definition payload_blocks :: "json \<Rightarrow> (string \<times> json) list result" where
  "payload_blocks data =
     bind (subscript data ''recordMap'') (\<lambda>record_map.
     bind (subscript record_map ''block'') (\<lambda>blocks.
       case blocks of JObj kvs \<Rightarrow> Inr kvs | _ \<Rightarrow> Inl TypeError))"

text \<open>The URL of a subpage: \<^verbatim>\<open>f"{domain}/{title}-{id.replace('-', '')}"\<close>.\<close>

definition subpage_url :: "world \<Rightarrow> string \<Rightarrow> string \<Rightarrow> string \<Rightarrow> string" where
  "subpage_url w url page_title block_id =
     url_domain w url @ ''/'' @ page_title @ ''-'' @ filter (\<lambda>c. c \<noteq> CHR ''-'') block_id"

text \<open>The part of \<^verbatim>\<open>process_page\<close> under \<^verbatim>\<open>if save_content\<close>.\<close>

definition save_page ::
  "world \<Rightarrow> string \<Rightarrow> bool \<Rightarrow> page_content \<Rightarrow> converter \<Rightarrow> unit result \<times> converter" where
  "save_page w parent_path save_content pc st =
     (let page_title = (if title pc \<noteq> [] then title pc else ''Untitled'');
          safe_title = slugify w page_title;
          page_dir = path_join w [output_dir st, parent_path, safe_title];
          md_file_path = path_join w [page_dir, safe_title @ ''.md'']
      in if \<not> save_content then (Inr (), st)
         else if write_fails w md_file_path then (Inl OSError, st)
         else (Inr (),
               st\<lparr>files := files st
                      @ [(md_file_path, ''# '' @ page_title @ nl @ nl @ content pc)]\<rparr>))"

text \<open>
  The three methods call each other. Each body is written first with the methods it calls as
  parameters: \<open>self_process_block\<close> is \<^verbatim>\<open>self.process_block(url, root_page_id, blocks, _, _)\<close>,
  \<open>self_process_page\<close> is \<^verbatim>\<open>self.process_page(_, save_content=False, recursive=False)\<close>.
\<close>

definition process_block_body ::
  "world \<Rightarrow> (string \<Rightarrow> json \<Rightarrow> converter \<Rightarrow> string list result \<times> converter)
     \<Rightarrow> (string \<Rightarrow> converter \<Rightarrow> page_content list result \<times> converter)
     \<Rightarrow> string \<Rightarrow> json \<Rightarrow> (string \<times> json) list \<Rightarrow> string \<Rightarrow> json \<Rightarrow> converter
     \<Rightarrow> string list result \<times> converter" where
  "process_block_body w self_process_block self_process_page
       url root_page_id blocks block_id block_data st =
     (case open_block block_data of
        Inl e \<Rightarrow> (Inl e, st)
      | Inr None \<Rightarrow> (Inr [], st)
      | Inr (Some (block, block_type, block_properties, block_content_ids)) \<Rightarrow>
          if block_type = JStr ''text'' then
            (bind (formatted_property w block_properties ''title'') (\<lambda>text. Inr [text]), st)
          else if block_type = JStr ''header'' then
            (bind (formatted_property w block_properties ''title'') (\<lambda>text. Inr [''# '' @ text]), st)
          else if block_type = JStr ''sub_header'' then
            (bind (formatted_property w block_properties ''title'') (\<lambda>text. Inr [''## '' @ text]), st)
          else if block_type = JStr ''sub_sub_header'' then
            (bind (formatted_property w block_properties ''title'') (\<lambda>text. Inr [''### '' @ text]), st)
          else if block_type = JStr ''bulleted_list'' then
            (bind (formatted_property w block_properties ''title'') (\<lambda>text. Inr [''- '' @ text]), st)
          else if block_type = JStr ''numbered_list'' then
            (bind (formatted_property w block_properties ''title'') (\<lambda>text. Inr [''1. '' @ text]), st)
          else if block_type = JStr ''to_do'' then
            (render_to_do w block block_properties, st)
          else if block_type = JStr ''toggle'' then
            (case bind (formatted_property w block_properties ''title'')
                    (\<lambda>text. bind (py_iter block_content_ids) (\<lambda>ids. Inr (text, ids))) of
               Inl e \<Rightarrow> (Inl e, st)
             | Inr (text, ids) \<Rightarrow>
                 (case for_each (on_block self_process_block blocks) ids [] st of
                    (Inl e, st') \<Rightarrow> (Inl e, st')
                  | (Inr toggle_content, st') \<Rightarrow>
                      (Inr [''<details>'' @ nl @ ''<summary>'' @ text @ ''</summary>'' @ nl @ nl
                            @ (if toggle_content \<noteq> [] then py_join (nl @ nl) toggle_content else '''')
                            @ nl @ ''</details>''], st')))
          else if block_type = JStr ''callout'' then
            (bind (formatted_property w block_properties ''title'') (\<lambda>text. Inr [''> '' @ text]), st)
          else if block_type = JStr ''quote'' then
            (bind (formatted_property w block_properties ''title'') (\<lambda>text. Inr [''> '' @ text]), st)
          else if block_type = JStr ''divider'' then
            (Inr [''---''], st)
          else if block_type = JStr ''code'' then
            (render_code w block_properties, st)
          else if block_type = JStr ''image'' then
            (render_image w root_page_id blocks block_id block_properties, st)
          else if block_type = JStr ''bookmark'' then
            (render_bookmark w block block_properties, st)
          else if block_type = JStr ''table'' then
            (render_table w blocks block_content_ids, st)
          else if block_type = JStr ''page'' then
            (case formatted_property w block_properties ''title'' of
               Inl e \<Rightarrow> (Inl e, st)
             | Inr page_title \<Rightarrow>
                 if single_mode st then
                   (case self_process_page (subpage_url w url page_title block_id) st of
                      (Inl e, st') \<Rightarrow> (Inl e, st')
                    | (Inr pages_content, st') \<Rightarrow>
                        (Inr (case pages_content of
                                [] \<Rightarrow> []
                              | pc # _ \<Rightarrow> [''# '' @ page_title, content pc]),
                         register_page block_id page_title root_page_id st'))
                 else
                   (Inr [''['' @ page_title @ ''](./'' @ slugify w page_title @ ''/''
                         @ slugify w page_title @ ''.md)''],
                    register_page block_id page_title root_page_id st))
          else if block_type = JStr ''column_list'' \<or> block_type = JStr ''column'' then
            (case py_iter block_content_ids of
               Inl e \<Rightarrow> (Inl e, st)
             | Inr ids \<Rightarrow>
                 (case for_each (on_block self_process_block blocks) ids [] st of
                    (Inl e, st') \<Rightarrow> (Inl e, st')
                  | (Inr column_content, st') \<Rightarrow>
                      (Inr (if column_content \<noteq> [] then [py_join (nl @ nl) column_content] else []),
                       st')))
          else (Inr [], st))"

text \<open>
  The first half of \<^verbatim>\<open>extract_page_content\<close>, up to the root page identifier: \<^verbatim>\<open>None\<close> is the
  method's \<^verbatim>\<open>return None\<close>.
\<close>

definition locate_root :: "json \<Rightarrow> ((string \<times> json) list \<times> json) option result" where
  "locate_root data =
     (if \<not> truthy data then Inr None
      else
        bind (py_in_str ''recordMap'' data) (\<lambda>has_record_map.
          if \<not> has_record_map then Inr None
          else
            bind (subscript data ''recordMap'') (\<lambda>record_map.
            bind (py_in_str ''block'' record_map) (\<lambda>has_block.
              if \<not> has_block then Inr None
              else
                bind (subscript record_map ''block'') (\<lambda>blocks.
                bind (dict_get data ''pageId'' JNull) (\<lambda>page_id.
                  case blocks of
                    JObj kvs \<Rightarrow>
                      bind (find_root page_id kvs) (\<lambda>root_page_id.
                        if \<not> truthy root_page_id then Inr None
                        else Inr (Some (kvs, root_page_id)))
                  | _ \<Rightarrow> Inl (no_block_table page_id blocks)))))))"

text \<open>\<open>self_process_block\<close> is \<^verbatim>\<open>self.process_block(url, _, _, _, _)\<close>.\<close>

definition extract_page_content_body ::
  "(json \<Rightarrow> (string \<times> json) list \<Rightarrow> string \<Rightarrow> json \<Rightarrow> converter \<Rightarrow> string list result \<times> converter)
     \<Rightarrow> json \<Rightarrow> converter \<Rightarrow> page_content option result \<times> converter" where
  "extract_page_content_body self_process_block data st =
     (case locate_root data of
        Inl e \<Rightarrow> (Inl e, st)
      | Inr None \<Rightarrow> (Inr None, st)
      | Inr (Some (blocks, root_page_id)) \<Rightarrow>
          (case root_title_and_content blocks root_page_id of
             Inl e \<Rightarrow> (Inl e, st)
           | Inr (page_title, content_ids) \<Rightarrow>
               (case for_each (on_block (self_process_block root_page_id blocks) blocks)
                       content_ids [] st of
                  (Inl e, st') \<Rightarrow> (Inl e, st')
                | (Inr lines, st') \<Rightarrow>
                    (Inr (Some \<lparr>title = page_title,
                                content = py_join (nl @ nl) lines,
                                subpages = map fst (page_data st')\<rparr>),
                     st'))))"

text \<open>
  The body of the loop \<^verbatim>\<open>for subpage_id in page_content['subpages']\<close>; \<open>self_process_page\<close> is
  \<^verbatim>\<open>self.process_page(_, _, save_content)\<close>, with \<^verbatim>\<open>recursive\<close> at its default.
\<close>

definition visit_subpage ::
  "world \<Rightarrow> (string \<Rightarrow> string \<Rightarrow> converter \<Rightarrow> page_content list result \<times> converter)
     \<Rightarrow> string \<Rightarrow> string \<Rightarrow> (string \<times> json) list \<Rightarrow> string \<Rightarrow> converter
     \<Rightarrow> page_content list result \<times> converter" where
  "visit_subpage w self_process_page url child_path blocks subpage_id st =
     (case map_of blocks subpage_id of
        None \<Rightarrow> (Inr [], st)
      | Some subpage_data \<Rightarrow>
          (case bind (inner_block subpage_data) (\<lambda>subpage_block.
                  bind (dict_get subpage_block ''properties'' (JObj []))
                    (\<lambda>props. plain_property props ''title'')) of
             Inl e \<Rightarrow> (Inl e, st)
           | Inr subpage_title \<Rightarrow>
               self_process_page (subpage_url w url subpage_title subpage_id) child_path st))"

text \<open>\<open>self_extract\<close> is \<^verbatim>\<open>self.extract_page_content(url, _)\<close>.\<close>

definition process_page_body ::
  "world \<Rightarrow> (json \<Rightarrow> converter \<Rightarrow> page_content option result \<times> converter)
     \<Rightarrow> (string \<Rightarrow> string \<Rightarrow> converter \<Rightarrow> page_content list result \<times> converter)
     \<Rightarrow> string \<Rightarrow> string \<Rightarrow> bool \<Rightarrow> bool \<Rightarrow> converter
     \<Rightarrow> page_content list result \<times> converter" where
  "process_page_body w self_extract self_process_page url parent_path save_content recursive st =
     (if url \<in> visited_pages st then (Inr [], st)
      else
        let st1 = st\<lparr>visited_pages := insert url (visited_pages st),
                     downloads := downloads st @ [url]\<rparr>
        in case download_page w url of
             None \<Rightarrow> (Inr [], st1)
           | Some html_content \<Rightarrow>
               if html_content = [] then (Inr [], st1)
               else
                 (case extract_json_data w html_content of
                    None \<Rightarrow> (Inr [], st1)
                  | Some data \<Rightarrow>
                      if \<not> truthy data then (Inr [], st1)
                      else
                        (case self_extract data st1 of
                           (Inl e, st2) \<Rightarrow> (Inl e, st2)
                         | (Inr None, st2) \<Rightarrow> (Inr [], st2)
                         | (Inr (Some pc), st2) \<Rightarrow>
                             (case save_page w parent_path save_content pc st2 of
                                (Inl e, st3) \<Rightarrow> (Inl e, st3)
                              | (Inr u, st3) \<Rightarrow>
                                  if \<not> recursive then (Inr [pc], st3)
                                  else
                                    (case payload_blocks data of
                                       Inl e \<Rightarrow> (Inl e, st3)
                                     | Inr blocks \<Rightarrow>
                                         for_each
                                           (visit_subpage w self_process_page url
                                              (path_join w
                                                 [parent_path,
                                                  slugify w (if title pc \<noteq> [] then title pc
                                                             else ''Untitled'')])
                                              blocks)
                                           (subpages pc) [pc] st3)))))"

text \<open>
  The methods themselves. The argument after the world bounds the depth of nested calls, as
  the interpreter's recursion limit does: a call at depth zero raises \<^verbatim>\<open>RecursionError\<close>.
\<close>

fun process_block ::
    "world \<Rightarrow> nat \<Rightarrow> string \<Rightarrow> json \<Rightarrow> (string \<times> json) list \<Rightarrow> string \<Rightarrow> json \<Rightarrow> converter
       \<Rightarrow> string list result \<times> converter"
  and extract_page_content ::
    "world \<Rightarrow> nat \<Rightarrow> string \<Rightarrow> json \<Rightarrow> converter \<Rightarrow> page_content option result \<times> converter"
  and process_page ::
    "world \<Rightarrow> nat \<Rightarrow> string \<Rightarrow> string \<Rightarrow> bool \<Rightarrow> bool \<Rightarrow> converter
       \<Rightarrow> page_content list result \<times> converter"
where
  "process_block w 0 url root_page_id blocks block_id block_data st = (Inl RecursionError, st)"
| "process_block w (Suc n) url root_page_id blocks block_id block_data st =
     process_block_body w
       (\<lambda>k bd s. process_block w n url root_page_id blocks k bd s)
       (\<lambda>u s. process_page w n u '''' False False s)
       url root_page_id blocks block_id block_data st"
| "extract_page_content w 0 url data st = (Inl RecursionError, st)"
| "extract_page_content w (Suc n) url data st =
     extract_page_content_body (\<lambda>r b k bd s. process_block w n url r b k bd s) data st"
| "process_page w 0 url parent_path save_content recursive st = (Inl RecursionError, st)"
| "process_page w (Suc n) url parent_path save_content recursive st =
     process_page_body w
       (\<lambda>data s. extract_page_content w n url data s)
       (\<lambda>u p s. process_page w n u p save_content True s)
       url parent_path save_content recursive st"

section \<open>Relations between converter states\<close>

text \<open>
  \<open>grows st st'\<close>: the converter \<open>st'\<close> comes after \<open>st\<close> in a run. The settings are the same,
  the visited set has only grown, the keys of \<^verbatim>\<open>page_data\<close> have only been extended at the
  end, and the URLs downloaded in between are pairwise different, were not visited in \<open>st\<close>
  and are visited in \<open>st'\<close>.
\<close>

definition grows :: "converter \<Rightarrow> converter \<Rightarrow> bool" where
  "grows st st' \<longleftrightarrow>
     output_dir st' = output_dir st \<and> single_mode st' = single_mode st \<and>
     visited_pages st \<subseteq> visited_pages st' \<and>
     prefix (map fst (page_data st)) (map fst (page_data st')) \<and>
     (\<exists>new. downloads st' = downloads st @ new \<and> distinct new \<and>
            set new \<inter> visited_pages st = {} \<and> set new \<subseteq> visited_pages st')"

text \<open>\<open>page_typed blocks k\<close>: the block table has an entry \<open>k\<close> which \<^verbatim>\<open>process_block\<close> reads as a
  block of type \<open>page\<close>.\<close>

definition page_typed :: "(string \<times> json) list \<Rightarrow> string \<Rightarrow> bool" where
  "page_typed blocks k =
     (case map_of blocks k of
        None \<Rightarrow> False
      | Some block_data \<Rightarrow>
          (case open_block block_data of
             Inr (Some (block, block_type, block_properties, ids)) \<Rightarrow> block_type = JStr ''page''
           | _ \<Rightarrow> False))"

text \<open>\<open>registered_within B st\<close>: the converter is in multi-file mode and all keys of its
  \<^verbatim>\<open>page_data\<close> lie in \<open>B\<close>.\<close>

definition registered_within :: "string set \<Rightarrow> converter \<Rightarrow> bool" where
  "registered_within B st \<longleftrightarrow> \<not> single_mode st \<and> set (map fst (page_data st)) \<subseteq> B"

text \<open>
  The page blocks that rendering reaches, for the statement of properties: \<open>block_pages n\<close>
  follows \<^verbatim>\<open>process_block\<close> at depth \<open>n\<close> from a block into the children of toggles and
  columns (the only blocks whose children are rendered) and collects the identifiers of the
  blocks of type \<open>page\<close>; \<open>pages_of_children\<close> does so for a list of content identifiers,
  skipping those that the block table does not hold.
\<close>

definition pages_of_children ::
  "(string \<Rightarrow> json \<Rightarrow> string set) \<Rightarrow> (string \<times> json) list \<Rightarrow> json list \<Rightarrow> string set" where
  "pages_of_children f blocks ids =
     (\<Union>c \<in> set ids. case lookup_block blocks c of Inr (Some (k, bd)) \<Rightarrow> f k bd | _ \<Rightarrow> {})"

fun block_pages :: "nat \<Rightarrow> (string \<times> json) list \<Rightarrow> string \<Rightarrow> json \<Rightarrow> string set" where
  "block_pages 0 blocks k block_data = {}"
| "block_pages (Suc n) blocks k block_data =
     (case open_block block_data of
        Inr (Some (block, block_type, block_properties, ids)) \<Rightarrow>
          if block_type = JStr ''page'' then {k}
          else if block_type = JStr ''toggle'' \<or> block_type = JStr ''column_list''
                  \<or> block_type = JStr ''column''
          then pages_of_children (\<lambda>k' bd. block_pages n blocks k' bd) blocks
                 (case py_iter ids of Inr cs \<Rightarrow> cs | Inl e \<Rightarrow> [])
          else {}
      | _ \<Rightarrow> {})"

text \<open>
  The cells of a table as the block table gives them, for the statement of properties:
  \<open>cell_renders w blocks cell_id text\<close> says that the block table holds the cell block and
  \<open>text\<close> is its rendered title; \<open>row_has_cells w blocks row_id cells\<close> says that the block
  table holds the row block, that its content is a list of identifiers, and that \<open>cells\<close>
  are the rendered titles of those of them that the block table holds, one cell for each,
  in order.
\<close>

definition cell_renders :: "world \<Rightarrow> (string \<times> json) list \<Rightarrow> string \<Rightarrow> string \<Rightarrow> bool" where
  "cell_renders w blocks cell_id text \<longleftrightarrow>
     (\<exists>cell_data cell_block props.
        map_of blocks cell_id = Some cell_data \<and>
        inner_block cell_data = Inr cell_block \<and>
        dict_get cell_block ''properties'' (JObj []) = Inr props \<and>
        formatted_property w props ''title'' = Inr text)"

definition row_has_cells ::
  "world \<Rightarrow> (string \<times> json) list \<Rightarrow> string \<Rightarrow> string list \<Rightarrow> bool" where
  "row_has_cells w blocks row_id cells \<longleftrightarrow>
     (\<exists>row_data row_block cell_ids.
        map_of blocks row_id = Some row_data \<and>
        inner_block row_data = Inr row_block \<and>
        dict_get row_block ''content'' (JList []) = Inr (JList (map JStr cell_ids)) \<and>
        list_all2 (cell_renders w blocks)
          (filter (\<lambda>c. c \<in> set (map fst blocks)) cell_ids) cells)"

section \<open>Sample payloads\<close>

text \<open>
  A block entry as \<^verbatim>\<open>process_block\<close> reads it, a page payload, and a world that serves a fixed
  set of pages (the downloaded document stands for itself) with the simplest collaborators.
\<close>

definition block_entry :: "string \<Rightarrow> string \<Rightarrow> string list \<Rightarrow> json" where
  "block_entry block_type block_title ids =
     JObj [(''value'', JObj [(''value'',
       JObj [(''type'', JStr block_type),
             (''properties'', JObj [(''title'', JList [JList [JStr block_title]])]),
             (''content'', JList (map JStr ids))])])]"

definition payload :: "string \<Rightarrow> (string \<times> json) list \<Rightarrow> json" where
  "payload page_id entries =
     JObj [(''pageId'', JStr page_id), (''recordMap'', JObj [(''block'', JObj entries)])]"

definition site :: "(string \<times> json) list \<Rightarrow> world" where
  "site pages =
     \<lparr>download_page = (\<lambda>u. if u \<in> set (map fst pages) then Some u else None),
      extract_json_data = map_of pages,
      slugify = (\<lambda>s. s),
      url_domain = (\<lambda>u. ''https://n.so''),
      quote_str = (\<lambda>s. s),
      str_lower = (\<lambda>s. s),
      path_join = (\<lambda>parts. py_join ''/'' (filter (\<lambda>part. part \<noteq> []) parts)),
      repr_compound = (\<lambda>v. case v of JList [] \<Rightarrow> ''[]'' | _ \<Rightarrow> ''{}''),
      write_fails = (\<lambda>p. False)\<rparr>"

text \<open>A table \<open>t\<close> of four rows: no cell, then \<open>a b\<close>, then \<open>c\<close>, then \<open>d e f\<close>.\<close>

definition sample_table :: "(string \<times> json) list" where
  "sample_table =
     [(''t'', block_entry ''table'' '''' [''r0'', ''r1'', ''r2'', ''r3'']),
      (''r0'', block_entry ''table_row'' '''' []),
      (''r1'', block_entry ''table_row'' '''' [''c1'', ''c2'']),
      (''r2'', block_entry ''table_row'' '''' [''c3'']),
      (''r3'', block_entry ''table_row'' '''' [''c4'', ''c5'', ''c6'']),
      (''c1'', block_entry ''text'' ''a'' []),
      (''c2'', block_entry ''text'' ''b'' []),
      (''c3'', block_entry ''text'' ''c'' []),
      (''c4'', block_entry ''text'' ''d'' []),
      (''c5'', block_entry ''text'' ''e'' []),
      (''c6'', block_entry ''text'' ''f'' [])]"

text \<open>A table \<open>t\<close> of two rows: the header \<open>1\<close>, then \<open>1 2 3 4 5\<close>; the second row also
  names a cell \<open>x9\<close> that the block table does not hold.\<close>

definition wide_table :: "(string \<times> json) list" where
  "wide_table =
     [(''t'', block_entry ''table'' '''' [''h'', ''gone'', ''w'']),
      (''h'', block_entry ''table_row'' '''' [''x1'']),
      (''w'', block_entry ''table_row'' '''' [''x1'', ''x2'', ''x9'', ''x3'', ''x4'', ''x5'']),
      (''x1'', block_entry ''text'' ''1'' []),
      (''x2'', block_entry ''text'' ''2'' []),
      (''x3'', block_entry ''text'' ''3'' []),
      (''x4'', block_entry ''text'' ''4'' []),
      (''x5'', block_entry ''text'' ''5'' [])]"

text \<open>
  Four pages in a diamond: \<open>A\<close> has the subpages \<open>B\<close> and \<open>C\<close>, and both have the subpage \<open>D\<close>.
  In \<open>diamond_without_d\<close> the page \<open>D\<close> cannot be downloaded.
\<close>

definition diamond_pages :: "(string \<times> json) list" where
  "diamond_pages =
     [(''https://n.so/A-a'',
         payload ''a'' [(''a'', block_entry ''page'' ''A'' [''b'', ''c'']),
                        (''b'', block_entry ''page'' ''B'' []),
                        (''c'', block_entry ''page'' ''C'' [])]),
      (''https://n.so/B-b'',
         payload ''b'' [(''b'', block_entry ''page'' ''B'' [''d'']),
                        (''d'', block_entry ''page'' ''D'' [])]),
      (''https://n.so/C-c'',
         payload ''c'' [(''c'', block_entry ''page'' ''C'' [''d'']),
                        (''d'', block_entry ''page'' ''D'' [])]),
      (''https://n.so/D-d'',
         payload ''d'' [(''d'', block_entry ''page'' ''D'' [''t'']),
                        (''t'', block_entry ''text'' ''leaf'' [])])]"

definition diamond :: world where
  "diamond = site diamond_pages"

definition diamond_without_d :: world where
  "diamond_without_d = site (take 3 diamond_pages)"

section \<open>Properties\<close>

subsection \<open>Auxiliary facts\<close>

lemma bind_Inr [simp]: "bind (Inr x) f = f x"
  by (simp add: bind_def)

lemma bind_Inl [simp]: "bind (Inl e) f = Inl e"
  by (simp add: bind_def)

lemma bind_eq_Inr: "bind m f = Inr y \<longleftrightarrow> (\<exists>x. m = Inr x \<and> f x = Inr y)"
  by (cases m) simp_all

subsection \<open>Rich text\<close>

lemma apply_formats_append:
  "apply_formats w t (fs @ gs) = bind (apply_formats w t fs) (\<lambda>t'. apply_formats w t' gs)"
  by (induction fs arbitrary: t) (simp_all add: bind_def split: sum.splits)

lemma join_values_single: "join_values [v] = Inr s \<longleftrightarrow> v = JStr s"
  by (cases v) simp_all

lemma single_run:
  "extract_formatted_text w (JList [JList [JStr t, JList fs]]) = Inr s
     \<longleftrightarrow> apply_formats w (JStr t) fs = Inr (JStr s)"
  by (auto simp add: extract_formatted_text_def bind_eq_Inr join_values_single)

text \<open>
  C5, as amended. A run without format markers renders to its text unchanged. The markers
  of a run are applied in the order in which the run lists them, each wrapping the text
  rendered so far: appending a marker to a run's format list wraps the run's previous
  rendering in that marker (\<open>**\<close> for \<open>b\<close>, \<open>*\<close> for \<open>i\<close>, \<open>~~\<close> for \<open>s\<close>, a backquote for \<open>c\<close>,
  \<open>[text](url)\<close> for a link). The rendering is a function of the run alone, but there is no
  canonical order of the markers.
\<close>

theorem formats_apply_in_listed_order:
  "extract_formatted_text w (JList [JList [JStr t]]) = Inr t \<and>
   extract_formatted_text w (JList [JList [JStr t, JList []]]) = Inr t \<and>
   (extract_formatted_text w (JList [JList [JStr t, JList fs]]) = Inr s \<longrightarrow>
      extract_formatted_text w (JList [JList [JStr t, JList (fs @ [JStr ''b''])]])
        = Inr (''**'' @ s @ ''**'') \<and>
      extract_formatted_text w (JList [JList [JStr t, JList (fs @ [JStr ''i''])]])
        = Inr (''*'' @ s @ ''*'') \<and>
      extract_formatted_text w (JList [JList [JStr t, JList (fs @ [JStr ''s''])]])
        = Inr (''~~'' @ s @ ''~~'') \<and>
      extract_formatted_text w (JList [JList [JStr t, JList (fs @ [JStr ''c''])]])
        = Inr (''`'' @ s @ ''`'') \<and>
      extract_formatted_text w
          (JList [JList [JStr t, JList (fs @ [JList [JStr ''a'', JStr href]])]])
        = Inr (''['' @ s @ '']('' @ href @ '')''))"
proof (intro conjI impI)
  show "extract_formatted_text w (JList [JList [JStr t]]) = Inr t"
    by (simp add: extract_formatted_text_def)
  show "extract_formatted_text w (JList [JList [JStr t, JList []]]) = Inr t"
    by (simp add: extract_formatted_text_def)
next
  assume "extract_formatted_text w (JList [JList [JStr t, JList fs]]) = Inr s"
  then have run: "apply_formats w (JStr t) fs = Inr (JStr s)"
    by (simp only: single_run)
  show "extract_formatted_text w (JList [JList [JStr t, JList (fs @ [JStr ''b''])]])
        = Inr (''**'' @ s @ ''**'')"
    by (simp add: single_run apply_formats_append run)
  show "extract_formatted_text w (JList [JList [JStr t, JList (fs @ [JStr ''i''])]])
        = Inr (''*'' @ s @ ''*'')"
    by (simp add: single_run apply_formats_append run)
  show "extract_formatted_text w (JList [JList [JStr t, JList (fs @ [JStr ''s''])]])
        = Inr (''~~'' @ s @ ''~~'')"
    by (simp add: single_run apply_formats_append run)
  show "extract_formatted_text w (JList [JList [JStr t, JList (fs @ [JStr ''c''])]])
        = Inr (''`'' @ s @ ''`'')"
    by (simp add: single_run apply_formats_append run)
  show "extract_formatted_text w
          (JList [JList [JStr t, JList (fs @ [JList [JStr ''a'', JStr href]])]])
        = Inr (''['' @ s @ '']('' @ href @ '')'')"
    by (simp add: single_run apply_formats_append run)
qed

text \<open>
  C5, the amended statement at a concrete run: the text \<open>x\<close> with the markers \<open>b\<close>, \<open>i\<close>;
  appending each of the five markers wraps \<open>***x***\<close>.
\<close>

theorem formats_apply_in_listed_order_witness:
  "extract_formatted_text (site [])
       (JList [JList [JStr ''x'', JList [JStr ''b'', JStr ''i'']]]) = Inr ''***x***'' \<and>
   extract_formatted_text (site [])
       (JList [JList [JStr ''x'', JList ([JStr ''b'', JStr ''i''] @ [JStr ''c''])]])
     = Inr (''`'' @ ''***x***'' @ ''`'') \<and>
   extract_formatted_text (site [])
       (JList [JList [JStr ''x'',
          JList ([JStr ''b'', JStr ''i''] @ [JList [JStr ''a'', JStr ''https://n.so'']])]])
     = Inr (''['' @ ''***x***'' @ '']('' @ ''https://n.so'' @ '')'')"
proof -
  have run: "extract_formatted_text (site [])
       (JList [JList [JStr ''x'', JList [JStr ''b'', JStr ''i'']]]) = Inr ''***x***''"
    by (simp add: extract_formatted_text_def)
  from run formats_apply_in_listed_order
         [of "site []" "''x''" "[JStr ''b'', JStr ''i'']" "''***x***''" "''https://n.so''"]
  show ?thesis
    by blast
qed

text \<open>
  C5 as stated fails: the runs \<open>("x", [b, c])\<close> and \<open>("x", [c, b])\<close> have the same text and the
  same set of markers and render to different strings.
\<close>

theorem marker_order_counterexample:
  "extract_formatted_text (site [])
       (JList [JList [JStr ''x'', JList [JStr ''b'', JStr ''c'']]]) = Inr ''`**x**`'' \<and>
   extract_formatted_text (site [])
       (JList [JList [JStr ''x'', JList [JStr ''c'', JStr ''b'']]]) = Inr ''**`x`**'' \<and>
   extract_formatted_text (site [])
       (JList [JList [JStr ''x'', JList [JStr ''b'', JStr ''c'']]])
     \<noteq> extract_formatted_text (site [])
         (JList [JList [JStr ''x'', JList [JStr ''c'', JStr ''b'']]])"
  by (simp add: extract_formatted_text_def)

subsection \<open>List items\<close>

lemma for_each_pure:
  assumes "\<forall>x \<in> set xs. body x st = (Inr (g x), st)"
  shows "for_each body xs acc st = (Inr (acc @ concat (map g xs)), st)"
  using assms by (induction xs arbitrary: acc) simp_all

text \<open>
  C8. A block of type \<open>numbered_list\<close> renders to the single line \<open>1. \<close> followed by its
  rendered title, and a block of type \<open>bulleted_list\<close> to \<open>- \<close> followed by its rendered
  title, whatever the block table, the block's identifier and the state of the converter,
  which is left unchanged: no ordinal is kept anywhere. So a content list all of whose
  members are numbered items renders to one line per item, each beginning with \<open>1. \<close>,
  whatever the item's position.
\<close>

theorem list_items_render_flat:
  "(open_block block_data = Inr (Some (block, JStr ''numbered_list'', block_properties, ids)) \<and>
    formatted_property w block_properties ''title'' = Inr text \<longrightarrow>
      process_block w (Suc n) url root_page_id blocks block_id block_data st
        = (Inr [''1. '' @ text], st)) \<and>
   (open_block block_data = Inr (Some (block, JStr ''bulleted_list'', block_properties, ids)) \<and>
    formatted_property w block_properties ''title'' = Inr text \<longrightarrow>
      process_block w (Suc n) url root_page_id blocks block_id block_data st
        = (Inr [''- '' @ text], st)) \<and>
   ((\<forall>c \<in> set items. \<exists>k bd b props cs.
        lookup_block blocks c = Inr (Some (k, bd)) \<and>
        open_block bd = Inr (Some (b, JStr ''numbered_list'', props, cs)) \<and>
        formatted_property w props ''title'' = Inr (text_of c)) \<longrightarrow>
      for_each (on_block (\<lambda>k bd s. process_block w (Suc n) url root_page_id blocks k bd s) blocks)
          items [] st
        = (Inr (map (\<lambda>c. ''1. '' @ text_of c) items), st))"
proof (intro conjI impI)
  assume "open_block block_data = Inr (Some (block, JStr ''numbered_list'', block_properties, ids)) \<and>
    formatted_property w block_properties ''title'' = Inr text"
  then show "process_block w (Suc n) url root_page_id blocks block_id block_data st
        = (Inr [''1. '' @ text], st)"
    by (simp add: process_block_body_def)
next
  assume "open_block block_data = Inr (Some (block, JStr ''bulleted_list'', block_properties, ids)) \<and>
    formatted_property w block_properties ''title'' = Inr text"
  then show "process_block w (Suc n) url root_page_id blocks block_id block_data st
        = (Inr [''- '' @ text], st)"
    by (simp add: process_block_body_def)
next
  assume numbered: "\<forall>c \<in> set items. \<exists>k bd b props cs.
        lookup_block blocks c = Inr (Some (k, bd)) \<and>
        open_block bd = Inr (Some (b, JStr ''numbered_list'', props, cs)) \<and>
        formatted_property w props ''title'' = Inr (text_of c)"
  have "on_block (\<lambda>k bd s. process_block w (Suc n) url root_page_id blocks k bd s) blocks c st
          = (Inr [''1. '' @ text_of c], st)"
    if "c \<in> set items" for c
  proof -
    from numbered that obtain k bd b props cs
      where "lookup_block blocks c = Inr (Some (k, bd))"
        and "open_block bd = Inr (Some (b, JStr ''numbered_list'', props, cs))"
        and "formatted_property w props ''title'' = Inr (text_of c)"
      by blast
    then show ?thesis
      by (simp add: on_block_def process_block_body_def)
  qed
  then have each: "\<forall>c \<in> set items.
      on_block (\<lambda>k bd s. process_block w (Suc n) url root_page_id blocks k bd s) blocks c st
        = (Inr [''1. '' @ text_of c], st)"
    by blast
  have "for_each (on_block (\<lambda>k bd s. process_block w (Suc n) url root_page_id blocks k bd s) blocks)
          items [] st
        = (Inr ([] @ concat (map (\<lambda>c. [''1. '' @ text_of c]) items)), st)"
    using each by (rule for_each_pure)
  then show "for_each (on_block (\<lambda>k bd s. process_block w (Suc n) url root_page_id blocks k bd s) blocks)
          items [] st
        = (Inr (map (\<lambda>c. ''1. '' @ text_of c) items), st)"
    by (simp add: concat_map_singleton)
qed

text \<open>C8 at two numbered items of a block table: both are numbered \<open>1.\<close>\<close>

theorem list_items_render_flat_witness:
  "open_block (block_entry ''numbered_list'' ''two'' [])
     = Inr (Some (JObj [(''type'', JStr ''numbered_list''),
                        (''properties'', JObj [(''title'', JList [JList [JStr ''two'']])]),
                        (''content'', JList [])],
                  JStr ''numbered_list'',
                  JObj [(''title'', JList [JList [JStr ''two'']])],
                  JList [])) \<and>
   formatted_property (site []) (JObj [(''title'', JList [JList [JStr ''two'']])]) ''title''
     = Inr ''two'' \<and>
   process_block (site []) (Suc 0) ''https://n.so/P-p'' (JStr ''p'')
       [(''k1'', block_entry ''numbered_list'' ''one'' []),
        (''k2'', block_entry ''numbered_list'' ''two'' [])]
       ''k2'' (block_entry ''numbered_list'' ''two'' []) (init_converter ''out'' False)
     = (Inr [''1. two''], init_converter ''out'' False) \<and>
   for_each
       (on_block
          (\<lambda>k bd s. process_block (site []) (Suc 0) ''https://n.so/P-p'' (JStr ''p'')
                       [(''k1'', block_entry ''numbered_list'' ''one'' []),
                        (''k2'', block_entry ''numbered_list'' ''two'' [])] k bd s)
          [(''k1'', block_entry ''numbered_list'' ''one'' []),
           (''k2'', block_entry ''numbered_list'' ''two'' [])])
       [JStr ''k1'', JStr ''k2''] [] (init_converter ''out'' False)
     = (Inr [''1. one'', ''1. two''], init_converter ''out'' False)"
proof -
  have opened: "open_block (block_entry ''numbered_list'' t [])
     = Inr (Some (JObj [(''type'', JStr ''numbered_list''),
                        (''properties'', JObj [(''title'', JList [JList [JStr t]])]),
                        (''content'', JList [])],
                  JStr ''numbered_list'',
                  JObj [(''title'', JList [JList [JStr t]])],
                  JList []))" for t
    by (simp add: open_block_def block_entry_def)
  have rendered:
    "formatted_property (site []) (JObj [(''title'', JList [JList [JStr t]])]) ''title'' = Inr t"
    for t
    by (simp add: formatted_property_def extract_formatted_text_def)
  have items: "\<forall>c \<in> set [JStr ''k1'', JStr ''k2'']. \<exists>k bd b props cs.
        lookup_block [(''k1'', block_entry ''numbered_list'' ''one'' []),
                      (''k2'', block_entry ''numbered_list'' ''two'' [])] c = Inr (Some (k, bd)) \<and>
        open_block bd = Inr (Some (b, JStr ''numbered_list'', props, cs)) \<and>
        formatted_property (site []) props ''title''
          = Inr (if c = JStr ''k1'' then ''one'' else ''two'')"
    using opened rendered by simp
  from list_items_render_flat
      [of "block_entry ''numbered_list'' ''two'' []" _ _ _ "site []" "''two''" 0
          "''https://n.so/P-p''" "JStr ''p''"
          "[(''k1'', block_entry ''numbered_list'' ''one'' []),
            (''k2'', block_entry ''numbered_list'' ''two'' [])]"
          "''k2''" "init_converter ''out'' False" "[JStr ''k1'', JStr ''k2'']"
          "\<lambda>c. if c = JStr ''k1'' then ''one'' else ''two''"]
    opened [of "''two''"] rendered [of "''two''"] items
  show ?thesis
    by simp
qed

subsection \<open>Tables\<close>

lemma pad_row_eq: "pad_row n row = row @ replicate (n - length row) ''''"
proof (induction n row rule: pad_row.induct)
  case (1 n row)
  show ?case
  proof (cases "length row < n")
    case True
    then have "n - length row = Suc (n - length (row @ ['''']))"
      by simp
    with True "1.IH" show ?thesis
      by (subst pad_row.simps) (simp add: replicate_app_Cons_same)
  next
    case False
    then show ?thesis
      by (subst pad_row.simps) simp
  qed
qed

text \<open>Once a header row is chosen, every further row is a body row.\<close>

lemma loop_with_header:
  "header_row \<noteq> [] \<Longrightarrow>
     table_rows_loop w blocks ids header_row body
       = bind (table_rows w blocks ids) (\<lambda>rows. Inr (header_row, body @ rows))"
proof (induction ids arbitrary: body)
  case Nil
  then show ?case by simp
next
  case (Cons child_id ids)
  show ?case
  proof (cases "lookup_block blocks child_id")
    case (Inl e)
    then show ?thesis by simp
  next
    case (Inr found)
    show ?thesis
    proof (cases found)
      case None
      with Inr Cons show ?thesis by simp
    next
      case (Some entry)
      obtain k row_data where entry: "entry = (k, row_data)"
        by (cases entry)
      show ?thesis
      proof (cases "table_row w blocks row_data")
        case (Inl e)
        with Inr Some entry show ?thesis by simp
      next
        case row: (Inr row_cells)
        with Inr Some entry Cons.prems Cons.IH [of "body @ [row_cells]"]
        show ?thesis
          by (cases "table_rows w blocks ids") simp_all
      qed
    qed
  qed
qed

text \<open>Without a header row yet, the rows without cells go to the body until a row with a
  cell arrives, which becomes the header.\<close>

lemma loop_without_header:
  "table_rows_loop w blocks ids [] body
     = bind (table_rows w blocks ids) (\<lambda>rows. Inr
         (case dropWhile (\<lambda>r. r = []) rows of
            [] \<Rightarrow> ([], body @ rows)
          | header # later \<Rightarrow> (header, body @ takeWhile (\<lambda>r. r = []) rows @ later)))"
proof (induction ids arbitrary: body)
  case Nil
  then show ?case by simp
next
  case (Cons child_id ids)
  show ?case
  proof (cases "lookup_block blocks child_id")
    case (Inl e)
    then show ?thesis by simp
  next
    case (Inr found)
    show ?thesis
    proof (cases found)
      case None
      with Inr Cons show ?thesis by simp
    next
      case (Some entry)
      obtain k row_data where entry: "entry = (k, row_data)"
        by (cases entry)
      show ?thesis
      proof (cases "table_row w blocks row_data")
        case (Inl e)
        with Inr Some entry show ?thesis by simp
      next
        case row: (Inr row_cells)
        show ?thesis
        proof (cases "row_cells = []")
          case True
          show ?thesis
          proof (cases "table_rows w blocks ids")
            case (Inl e)
            with True row Inr Some entry Cons.IH [of "body @ [[]]"]
            show ?thesis by simp
          next
            case rest: (Inr rows)
            with True row Inr Some entry Cons.IH [of "body @ [[]]"]
            show ?thesis
              by (cases "dropWhile (\<lambda>r. r = []) rows")
                 (simp_all del: dropWhile_eq_Nil_conv)
          qed
        next
          case False
          with row Inr Some entry loop_with_header [of row_cells w blocks ids body]
          show ?thesis
            by (cases "table_rows w blocks ids") simp_all
        qed
      qed
    qed
  qed
qed

lemma table_block_renders:
  assumes "open_block block_data = Inr (Some (block, JStr ''table'', block_properties, content_ids))"
    and "py_iter content_ids = Inr child_ids"
    and "table_rows_loop w blocks child_ids [] [] = Inr (header_row, body_rows)"
  shows "process_block w (Suc n) url root_page_id blocks block_id block_data st
           = (Inr (table_markdown header_row body_rows), st)"
  using assms by (simp add: process_block_body_def render_table_def)

lemma sample_table_opens:
  "open_block (block_entry ''table'' '''' [''r0'', ''r1'', ''r2'', ''r3''])
     = Inr (Some (JObj [(''type'', JStr ''table''),
                        (''properties'', JObj [(''title'', JList [JList [JStr '''']])]),
                        (''content'', JList [JStr ''r0'', JStr ''r1'', JStr ''r2'', JStr ''r3''])],
                  JStr ''table'',
                  JObj [(''title'', JList [JList [JStr '''']])],
                  JList [JStr ''r0'', JStr ''r1'', JStr ''r2'', JStr ''r3'']))"
  by (simp add: open_block_def block_entry_def)

lemma sample_table_rows:
  "table_rows (site []) sample_table [JStr ''r0'', JStr ''r1'', JStr ''r2'', JStr ''r3'']
     = Inr [[], [''a'', ''b''], [''c''], [''d'', ''e'', ''f'']]"
  by (simp add: sample_table_def block_entry_def table_row_def inner_block_def
        formatted_property_def extract_formatted_text_def)

text \<open>
  C7, as amended. The first child row that has at least one cell becomes the header row;
  every other row found in the block table is a body row, in order: the rows without cells
  that precede the header, and all rows after it. A body row shorter than the header is
  padded with empty cells to the header's width (a longer one is left as it is), and the
  separator row has one \<open>---\<close> per header cell. When the first row has a cell, it is the
  header and all subsequent rows are body rows.
\<close>

theorem table_header_and_padding:
  assumes "open_block block_data = Inr (Some (block, JStr ''table'', block_properties, content_ids))"
    and "py_iter content_ids = Inr child_ids"
    and "table_rows w blocks child_ids = Inr rows"
    and "dropWhile (\<lambda>r. r = []) rows = header # later"
  shows "process_block w (Suc n) url root_page_id blocks block_id block_data st
           = (Inr [py_join nl
                     (py_join '' | '' header
                      # py_join '' | '' (replicate (length header) ''---'')
                      # map (\<lambda>r. py_join '' | '' (r @ replicate (length header - length r) ''''))
                          (takeWhile (\<lambda>r. r = []) rows @ later))], st)"
proof -
  have "hd (dropWhile (\<lambda>r. r = []) rows) \<noteq> []"
    using assms(4) hd_dropWhile [of "\<lambda>r. r = []" rows] by fastforce
  with assms(4) have header: "header \<noteq> []"
    by simp
  from assms(3,4)
  have "table_rows_loop w blocks child_ids [] []
          = Inr (header, takeWhile (\<lambda>r. r = []) rows @ later)"
    by (simp add: loop_without_header)
  from table_block_renders [OF assms(1,2) this] header show ?thesis
    by (simp add: table_markdown_def pad_row_eq)
qed

text \<open>
  C7, as amended, at a table whose first row has two cells and whose second row has one:
  the separator has two dashes and the second row is padded with one empty cell.
\<close>

theorem table_header_and_padding_witness:
  "open_block (block_entry ''table'' '''' [''r1'', ''r2''])
     = Inr (Some (JObj [(''type'', JStr ''table''),
                        (''properties'', JObj [(''title'', JList [JList [JStr '''']])]),
                        (''content'', JList [JStr ''r1'', JStr ''r2''])],
                  JStr ''table'',
                  JObj [(''title'', JList [JList [JStr '''']])],
                  JList [JStr ''r1'', JStr ''r2''])) \<and>
   py_iter (JList [JStr ''r1'', JStr ''r2'']) = Inr [JStr ''r1'', JStr ''r2''] \<and>
   table_rows (site []) sample_table [JStr ''r1'', JStr ''r2''] = Inr [[''a'', ''b''], [''c'']] \<and>
   dropWhile (\<lambda>r. r = []) [[''a'', ''b''], [''c'']] = [''a'', ''b''] # [[''c'']] \<and>
   process_block (site []) (Suc 0) ''https://n.so/P-p'' (JStr ''p'') sample_table ''t''
       (block_entry ''table'' '''' [''r1'', ''r2'']) (init_converter ''out'' False)
     = (Inr [''a | b'' @ nl @ ''--- | ---'' @ nl @ ''c | ''], init_converter ''out'' False)"
proof -
  have opened: "open_block (block_entry ''table'' '''' [''r1'', ''r2''])
     = Inr (Some (JObj [(''type'', JStr ''table''),
                        (''properties'', JObj [(''title'', JList [JList [JStr '''']])]),
                        (''content'', JList [JStr ''r1'', JStr ''r2''])],
                  JStr ''table'',
                  JObj [(''title'', JList [JList [JStr '''']])],
                  JList [JStr ''r1'', JStr ''r2'']))"
    by (simp add: open_block_def block_entry_def)
  have ids: "py_iter (JList [JStr ''r1'', JStr ''r2'']) = Inr [JStr ''r1'', JStr ''r2'']"
    by simp
  have rows: "table_rows (site []) sample_table [JStr ''r1'', JStr ''r2'']
                = Inr [[''a'', ''b''], [''c'']]"
    by (simp add: sample_table_def block_entry_def table_row_def inner_block_def
          formatted_property_def extract_formatted_text_def)
  have header: "dropWhile (\<lambda>r. r = []) [[''a'', ''b''], [''c'']] = [''a'', ''b''] # [[''c'']]"
    by simp
  from table_header_and_padding [OF opened ids rows header, of 0 "''https://n.so/P-p''"
         "JStr ''p''" "''t''" "init_converter ''out'' False"]
       opened ids rows header
  show ?thesis
    by simp
qed

text \<open>
  C7 as stated fails at the table \<open>t\<close> of the samples: its first row has no cell, the
  second row \<open>a b\<close> becomes the header, and the first row is emitted as a body row of two
  empty cells below the separator.
\<close>

theorem first_row_not_header_counterexample:
  "table_rows (site []) sample_table [JStr ''r0'', JStr ''r1'', JStr ''r2'', JStr ''r3'']
     = Inr [[], [''a'', ''b''], [''c''], [''d'', ''e'', ''f'']] \<and>
   process_block (site []) (Suc 0) ''https://n.so/P-p'' (JStr ''p'') sample_table ''t''
       (block_entry ''table'' '''' [''r0'', ''r1'', ''r2'', ''r3'']) (init_converter ''out'' False)
     = (Inr [''a | b'' @ nl @ ''--- | ---'' @ nl @ '' | '' @ nl @ ''c | '' @ nl @ ''d | e | f''],
        init_converter ''out'' False)"
proof -
  have "dropWhile (\<lambda>r. r = []) [[], [''a'', ''b''], [''c''], [''d'', ''e'', ''f'']]
          = [''a'', ''b''] # [[''c''], [''d'', ''e'', ''f'']]"
    by simp
  with sample_table_rows have "table_rows_loop (site []) sample_table
          [JStr ''r0'', JStr ''r1'', JStr ''r2'', JStr ''r3''] [] []
        = Inr ([''a'', ''b''], [[], [''c''], [''d'', ''e'', ''f'']])"
    by (simp add: loop_without_header)
  from table_block_renders [OF sample_table_opens _ this, of 0 "''https://n.so/P-p''"
         "JStr ''p''" "''t''" "init_converter ''out'' False"]
       sample_table_rows
  show ?thesis
    by (simp add: table_markdown_def pad_row_eq)
qed

text \<open>The inner loop collects exactly the cells that the block table gives.\<close>

lemma table_row_cells_collects:
  "list_all2 (cell_renders w blocks) (filter (\<lambda>c. c \<in> set (map fst blocks)) cell_ids) cells \<Longrightarrow>
     table_row_cells w blocks (map JStr cell_ids) = Inr cells"
proof (induction cell_ids arbitrary: cells)
  case Nil
  then show ?case by simp
next
  case (Cons cell_id cell_ids)
  show ?case
  proof (cases "cell_id \<in> set (map fst blocks)")
    case False
    with Cons.prems have "list_all2 (cell_renders w blocks)
        (filter (\<lambda>c. c \<in> set (map fst blocks)) cell_ids) cells"
      by simp
    then have "table_row_cells w blocks (map JStr cell_ids) = Inr cells"
      by (rule Cons.IH)
    moreover from False have "map_of blocks cell_id = None"
      by (simp add: map_of_eq_None_iff)
    ultimately show ?thesis
      by simp
  next
    case True
    with Cons.prems obtain shown rest where cells: "cells = shown # rest"
      and first: "cell_renders w blocks cell_id shown"
      and others: "list_all2 (cell_renders w blocks)
        (filter (\<lambda>c. c \<in> set (map fst blocks)) cell_ids) rest"
      by (auto simp add: list_all2_Cons1)
    from others have "table_row_cells w blocks (map JStr cell_ids) = Inr rest"
      by (rule Cons.IH)
    moreover from first obtain cell_data cell_block props
      where "map_of blocks cell_id = Some cell_data"
        and "inner_block cell_data = Inr cell_block"
        and "dict_get cell_block ''properties'' (JObj []) = Inr props"
        and "formatted_property w props ''title'' = Inr shown"
      by (auto simp add: cell_renders_def)
    ultimately show ?thesis
      using cells by simp
  qed
qed

lemma table_rows_collects:
  "list_all2 (row_has_cells w blocks) (filter (\<lambda>r. r \<in> set (map fst blocks)) row_ids) rows \<Longrightarrow>
     table_rows w blocks (map JStr row_ids) = Inr rows"
proof (induction row_ids arbitrary: rows)
  case Nil
  then show ?case by simp
next
  case (Cons row_id row_ids)
  show ?case
  proof (cases "row_id \<in> set (map fst blocks)")
    case False
    with Cons.prems have "list_all2 (row_has_cells w blocks)
        (filter (\<lambda>r. r \<in> set (map fst blocks)) row_ids) rows"
      by simp
    then have "table_rows w blocks (map JStr row_ids) = Inr rows"
      by (rule Cons.IH)
    moreover from False have "map_of blocks row_id = None"
      by (simp add: map_of_eq_None_iff)
    ultimately show ?thesis
      by simp
  next
    case True
    with Cons.prems obtain cells rest where rows: "rows = cells # rest"
      and first: "row_has_cells w blocks row_id cells"
      and others: "list_all2 (row_has_cells w blocks)
        (filter (\<lambda>r. r \<in> set (map fst blocks)) row_ids) rest"
      by (auto simp add: list_all2_Cons1)
    from others have rest: "table_rows w blocks (map JStr row_ids) = Inr rest"
      by (rule Cons.IH)
    from first obtain row_data row_block cell_ids
      where held: "map_of blocks row_id = Some row_data"
        and "inner_block row_data = Inr row_block"
        and "dict_get row_block ''content'' (JList []) = Inr (JList (map JStr cell_ids))"
        and "list_all2 (cell_renders w blocks)
               (filter (\<lambda>c. c \<in> set (map fst blocks)) cell_ids) cells"
      by (auto simp add: row_has_cells_def)
    then have "table_row w blocks row_data = Inr cells"
      by (simp add: table_row_def table_row_cells_collects)
    with held rest rows show ?thesis
      by simp
  qed
qed

text \<open>
  C10. Take a table block whose content is a list of row identifiers, and let the block
  table give the rows their cells: each row that the block table holds has, as its cells,
  the rendered titles of those of its cell identifiers that the block table holds. Let the
  header (the first row with a cell) be followed, among the later rows, by a row with more
  cells than the header has. Then that row is written with every one of its cells, joined
  by \<open> | \<close>, in its place among the body rows: it is not cut to the header's width, and so
  has more cells than the separator row has dashes.
\<close>

theorem wide_rows_not_truncated:
  assumes "open_block block_data
             = Inr (Some (block, JStr ''table'', block_properties, JList (map JStr row_ids)))"
    and "list_all2 (row_has_cells w blocks)
           (filter (\<lambda>r. r \<in> set (map fst blocks)) row_ids) rows"
    and "dropWhile (\<lambda>r. r = []) rows = header # before @ row # after"
    and "length header < length row"
  shows "process_block w (Suc n) url root_page_id blocks block_id block_data st
           = (Inr [py_join nl
                     ([py_join '' | '' header,
                       py_join '' | '' (replicate (length header) ''---'')]
                      @ map (\<lambda>r. py_join '' | '' (r @ replicate (length header - length r) ''''))
                          (takeWhile (\<lambda>r. r = []) rows @ before)
                      @ [py_join '' | '' row]
                      @ map (\<lambda>r. py_join '' | '' (r @ replicate (length header - length r) ''''))
                          after)], st)"
proof -
  have "hd (dropWhile (\<lambda>r. r = []) rows) \<noteq> []"
    using assms(3) hd_dropWhile [of "\<lambda>r. r = []" rows] by fastforce
  with assms(3) have header: "header \<noteq> []"
    by simp
  from assms(2) have "table_rows w blocks (map JStr row_ids) = Inr rows"
    by (rule table_rows_collects)
  with assms(3)
  have loop: "table_rows_loop w blocks (map JStr row_ids) [] []
          = Inr (header, takeWhile (\<lambda>r. r = []) rows @ before @ row # after)"
    by (simp add: loop_without_header)
  have ids: "py_iter (JList (map JStr row_ids)) = Inr (map JStr row_ids)"
    by simp
  from table_block_renders [OF assms(1) ids loop] header assms(4) show ?thesis
    by (simp add: table_markdown_def pad_row_eq)
qed

text \<open>
  C10 at the table \<open>t\<close> of the second sample: the row \<open>1 2 3 4 5\<close> under the header \<open>1\<close> keeps
  its five cells; the row and the cell that the block table does not hold are skipped.
\<close>

theorem wide_rows_not_truncated_witness:
  "open_block (block_entry ''table'' '''' [''h'', ''gone'', ''w''])
     = Inr (Some (JObj [(''type'', JStr ''table''),
                        (''properties'', JObj [(''title'', JList [JList [JStr '''']])]),
                        (''content'', JList (map JStr [''h'', ''gone'', ''w'']))],
                  JStr ''table'',
                  JObj [(''title'', JList [JList [JStr '''']])],
                  JList (map JStr [''h'', ''gone'', ''w'']))) \<and>
   list_all2 (row_has_cells (site []) wide_table)
     (filter (\<lambda>r. r \<in> set (map fst wide_table)) [''h'', ''gone'', ''w''])
     [[''1''], [''1'', ''2'', ''3'', ''4'', ''5'']] \<and>
   dropWhile (\<lambda>r. r = []) [[''1''], [''1'', ''2'', ''3'', ''4'', ''5'']]
     = [''1''] # [] @ [''1'', ''2'', ''3'', ''4'', ''5''] # [] \<and>
   length [''1''] < length [''1'', ''2'', ''3'', ''4'', ''5''] \<and>
   process_block (site []) (Suc 0) ''https://n.so/P-p'' (JStr ''p'') wide_table ''t''
       (block_entry ''table'' '''' [''h'', ''gone'', ''w'']) (init_converter ''out'' False)
     = (Inr [''1'' @ nl @ ''---'' @ nl @ ''1 | 2 | 3 | 4 | 5''], init_converter ''out'' False)"
proof -
  have opened: "open_block (block_entry ''table'' '''' [''h'', ''gone'', ''w''])
     = Inr (Some (JObj [(''type'', JStr ''table''),
                        (''properties'', JObj [(''title'', JList [JList [JStr '''']])]),
                        (''content'', JList (map JStr [''h'', ''gone'', ''w'']))],
                  JStr ''table'',
                  JObj [(''title'', JList [JList [JStr '''']])],
                  JList (map JStr [''h'', ''gone'', ''w''])))"
    by (simp add: open_block_def block_entry_def)
  have cell: "cell_renders (site []) wide_table k t"
    if "map_of wide_table k = Some (block_entry ''text'' t [])" for k t
    using that
    by (simp add: cell_renders_def inner_block_def block_entry_def formatted_property_def
          extract_formatted_text_def)
  have cells: "cell_renders (site []) wide_table ''x1'' ''1''"
    "cell_renders (site []) wide_table ''x2'' ''2''"
    "cell_renders (site []) wide_table ''x3'' ''3''"
    "cell_renders (site []) wide_table ''x4'' ''4''"
    "cell_renders (site []) wide_table ''x5'' ''5''"
    by (rule cell, simp add: wide_table_def)+
  have row: "row_has_cells (site []) wide_table k cs"
    if "map_of wide_table k = Some (block_entry ''table_row'' '''' ids)"
      and "list_all2 (cell_renders (site []) wide_table)
             (filter (\<lambda>c. c \<in> set (map fst wide_table)) ids) cs"
    for k ids cs
    unfolding row_has_cells_def
    using that
    by (intro exI [of _ "block_entry ''table_row'' '''' ids"]
          exI [of _ "JObj [(''type'', JStr ''table_row''),
                           (''properties'', JObj [(''title'', JList [JList [JStr '''']])]),
                           (''content'', JList (map JStr ids))]"]
          exI [of _ ids])
       (simp add: inner_block_def block_entry_def)
  have head: "row_has_cells (site []) wide_table ''h'' [''1'']"
    by (rule row [of _ "[''x1'']"]) (simp_all add: wide_table_def cells [unfolded wide_table_def])
  have wide: "row_has_cells (site []) wide_table ''w'' [''1'', ''2'', ''3'', ''4'', ''5'']"
    by (rule row [of _ "[''x1'', ''x2'', ''x9'', ''x3'', ''x4'', ''x5'']"])
       (simp_all add: wide_table_def cells [unfolded wide_table_def])
  have rows: "list_all2 (row_has_cells (site []) wide_table)
     (filter (\<lambda>r. r \<in> set (map fst wide_table)) [''h'', ''gone'', ''w''])
     [[''1''], [''1'', ''2'', ''3'', ''4'', ''5'']]"
    using head wide by (simp add: wide_table_def)
  have split: "dropWhile (\<lambda>r. r = []) [[''1''], [''1'', ''2'', ''3'', ''4'', ''5'']]
     = [''1''] # [] @ [''1'', ''2'', ''3'', ''4'', ''5''] # []"
    by simp
  have longer: "length [''1''] < length [''1'', ''2'', ''3'', ''4'', ''5'']"
    by simp
  from wide_rows_not_truncated [OF opened rows split longer, of 0 "''https://n.so/P-p''"
         "JStr ''p''" "''t''" "init_converter ''out'' False"]
       opened rows split longer
  show ?thesis
    by simp
qed

subsection \<open>The converter only grows\<close>

lemma grows_refl [simp]: "grows st st"
  by (simp add: grows_def)

lemma grows_trans:
  assumes "grows st st'" and "grows st' st''"
  shows "grows st st''"
proof -
  from assms(1) obtain new1 where new1:
    "downloads st' = downloads st @ new1" "distinct new1"
    "set new1 \<inter> visited_pages st = {}" "set new1 \<subseteq> visited_pages st'"
    by (auto simp add: grows_def)
  from assms(2) obtain new2 where new2:
    "downloads st'' = downloads st' @ new2" "distinct new2"
    "set new2 \<inter> visited_pages st' = {}" "set new2 \<subseteq> visited_pages st''"
    by (auto simp add: grows_def)
  from assms have sub: "visited_pages st \<subseteq> visited_pages st'" "visited_pages st' \<subseteq> visited_pages st''"
    by (simp_all add: grows_def)
  have "downloads st'' = downloads st @ (new1 @ new2)"
    using new1(1) new2(1) by simp
  moreover have "distinct (new1 @ new2)"
    using new1(2,4) new2(2,3) by auto
  moreover have "set (new1 @ new2) \<inter> visited_pages st = {}"
    using new1(3) new2(3) sub(1) by auto
  moreover have "set (new1 @ new2) \<subseteq> visited_pages st''"
    using new1(4) new2(4) sub(2) by auto
  moreover have "prefix (map fst (page_data st)) (map fst (page_data st''))"
    using assms by (auto simp add: grows_def intro: prefix_order.trans)
  ultimately show ?thesis
    using assms sub by (simp add: grows_def)
qed

lemma keys_dict_set:
  "map fst (dict_set k v d) = (if k \<in> set (map fst d) then map fst d else map fst d @ [k])"
  by (induction d) auto

lemma grows_register_page: "grows st (register_page page_id page_title root_page_id st)"
  by (simp add: grows_def register_page_def keys_dict_set)

lemma grows_save_page: "save_page w parent_path save_content pc st = (r, st') \<Longrightarrow> grows st st'"
  by (auto simp add: save_page_def Let_def grows_def split: if_splits)

lemma grows_visit:
  "url \<notin> visited_pages st \<Longrightarrow>
     grows st (st\<lparr>visited_pages := insert url (visited_pages st), downloads := downloads st @ [url]\<rparr>)"
  by (auto simp add: grows_def)

lemma for_each_grows:
  assumes body: "\<forall>x s q s'. body x s = (q, s') \<longrightarrow> grows s s'"
  shows "for_each body xs acc st = (r, st') \<Longrightarrow> grows st st'"
proof (induction xs arbitrary: acc st)
  case Nil
  then show ?case by simp
next
  case (Cons x xs)
  obtain r1 s1 where step: "body x st = (r1, s1)"
    by (cases "body x st")
  with body have g1: "grows st s1"
    by blast
  show ?case
  proof (cases r1)
    case (Inl e)
    with step Cons.prems g1 show ?thesis by simp
  next
    case (Inr out)
    with step Cons.prems have "for_each body xs (acc @ out) s1 = (r, st')"
      by simp
    then have "grows s1 st'"
      by (rule Cons.IH)
    with g1 show ?thesis
      by (rule grows_trans)
  qed
qed

lemma children_grow:
  assumes f: "\<forall>k bd s q s'. f k bd s = (q, s') \<longrightarrow> grows s s'"
  shows "for_each (on_block f blocks) ids acc st = (r, st') \<Longrightarrow> grows st st'"
proof -
  have "\<forall>x s q s'. on_block f blocks x s = (q, s') \<longrightarrow> grows s s'"
    using f by (auto simp add: on_block_def split: sum.splits option.splits)
  then show "for_each (on_block f blocks) ids acc st = (r, st') \<Longrightarrow> grows st st'"
    by (rule for_each_grows)
qed

lemma process_block_body_grows:
  assumes spb: "\<forall>k bd s q s'. self_process_block k bd s = (q, s') \<longrightarrow> grows s s'"
    and spp: "\<forall>u s q s'. self_process_page u s = (q, s') \<longrightarrow> grows s s'"
    and run: "process_block_body w self_process_block self_process_page
                url root_page_id blocks block_id block_data st = (r, st')"
  shows "grows st st'"
proof (cases "open_block block_data")
  case (Inl e)
  with run show ?thesis by (simp add: process_block_body_def)
next
  case (Inr opened)
  show ?thesis
  proof (cases opened)
    case None
    with Inr run show ?thesis by (simp add: process_block_body_def)
  next
    case (Some fields)
    obtain block block_type block_properties block_content_ids
      where fields: "fields = (block, block_type, block_properties, block_content_ids)"
      by (cases fields)
    note opened = Inr Some fields
    have children: "grows s s'"
      if "for_each (on_block self_process_block blocks) ids acc s = (q, s')" for ids acc s q s'
      using that by (rule children_grow [OF spb])
    consider (toggle) "block_type = JStr ''toggle''"
      | (page) "block_type = JStr ''page''"
      | (column) "block_type = JStr ''column_list'' \<or> block_type = JStr ''column''"
      | (leaf) "block_type \<noteq> JStr ''toggle''" "block_type \<noteq> JStr ''page''"
          "block_type \<noteq> JStr ''column_list''" "block_type \<noteq> JStr ''column''"
      by blast
    then show ?thesis
    proof cases
      case toggle
      with opened run show ?thesis
        by (auto simp add: process_block_body_def split: sum.splits prod.splits
              dest: children)
    next
      case page
      have "grows s (register_page block_id t root_page_id s')"
        if "self_process_page u s = (q, s')" for u s q s' t
        using spp that grows_register_page [of s' block_id t root_page_id]
        by (blast intro: grows_trans)
      with page opened run spp show ?thesis
        by (auto simp add: process_block_body_def grows_register_page
              split: sum.splits prod.splits if_splits)
    next
      case column
      with opened run show ?thesis
        by (auto simp add: process_block_body_def split: sum.splits prod.splits
              dest: children)
    next
      case leaf
      with opened run have "st' = st"
        by (simp add: process_block_body_def split: if_splits)
      then show ?thesis by simp
    qed
  qed
qed

lemma extract_page_content_body_grows:
  assumes spb: "\<forall>root blocks k bd s q s'.
                  self_process_block root blocks k bd s = (q, s') \<longrightarrow> grows s s'"
    and run: "extract_page_content_body self_process_block data st = (r, st')"
  shows "grows st st'"
proof -
  have "grows s s'"
    if "for_each (on_block (self_process_block root blocks) blocks) ids acc s = (q, s')"
    for root blocks ids acc s q s'
  proof -
    from spb have "\<forall>k bd s q s'. self_process_block root blocks k bd s = (q, s') \<longrightarrow> grows s s'"
      by blast
    from children_grow [OF this that] show ?thesis .
  qed
  with run show ?thesis
    by (auto simp add: extract_page_content_body_def
          split: sum.splits option.splits prod.splits)
qed

lemma visit_subpage_grows:
  assumes "\<forall>u p s q s'. self_process_page u p s = (q, s') \<longrightarrow> grows s s'"
  shows "visit_subpage w self_process_page url child_path blocks subpage_id st = (r, st')
           \<Longrightarrow> grows st st'"
  using assms by (auto simp add: visit_subpage_def split: option.splits sum.splits)

lemma process_page_body_grows:
  assumes ext: "\<forall>data s q s'. self_extract data s = (q, s') \<longrightarrow> grows s s'"
    and spp: "\<forall>u p s q s'. self_process_page u p s = (q, s') \<longrightarrow> grows s s'"
    and run: "process_page_body w self_extract self_process_page
                url parent_path save_content recursive st = (r, st')"
  shows "grows st st'"
proof (cases "url \<in> visited_pages st")
  case True
  with run show ?thesis by (simp add: process_page_body_def)
next
  case False
  define st1 where
    "st1 = st\<lparr>visited_pages := insert url (visited_pages st), downloads := downloads st @ [url]\<rparr>"
  from False have g1: "grows st st1"
    unfolding st1_def by (rule grows_visit)
  have loop: "grows s s'"
    if "for_each (visit_subpage w self_process_page url p blocks) xs acc s = (q, s')"
    for p blocks xs acc s q s'
  proof -
    have "\<forall>x s q s'. visit_subpage w self_process_page url p blocks x s = (q, s') \<longrightarrow> grows s s'"
      using visit_subpage_grows [OF spp] by blast
    from for_each_grows [OF this that] show ?thesis .
  qed
  have extracted: "grows s s'" if "self_extract data s = (q, s')" for data s q s'
    using ext that by blast
  from run False have "grows st1 st'"
    unfolding process_page_body_def Let_def st1_def [symmetric]
    by (auto split: option.splits if_splits sum.splits prod.splits
          dest!: extracted grows_save_page loop intro: grows_trans)
  with g1 show ?thesis by (rule grows_trans)
qed

lemma methods_grow:
  "(\<forall>url root_page_id blocks block_id block_data st r st'.
      process_block w n url root_page_id blocks block_id block_data st = (r, st') \<longrightarrow> grows st st') \<and>
   (\<forall>url data st r st'.
      extract_page_content w n url data st = (r, st') \<longrightarrow> grows st st') \<and>
   (\<forall>url parent_path save_content recursive st r st'.
      process_page w n url parent_path save_content recursive st = (r, st') \<longrightarrow> grows st st')"
proof (induction n)
  case 0
  show ?case by auto
next
  case (Suc n)
  show ?case
  proof (intro conjI allI impI)
    fix url root_page_id blocks block_id block_data st r st'
    assume "process_block w (Suc n) url root_page_id blocks block_id block_data st = (r, st')"
    then have run: "process_block_body w
       (\<lambda>k bd s. process_block w n url root_page_id blocks k bd s)
       (\<lambda>u s. process_page w n u '''' False False s)
       url root_page_id blocks block_id block_data st = (r, st')"
      by simp
    show "grows st st'"
      by (rule process_block_body_grows [OF _ _ run]) (use Suc.IH in blast)+
  next
    fix url data st r st'
    assume "extract_page_content w (Suc n) url data st = (r, st')"
    then have run: "extract_page_content_body
       (\<lambda>r b k bd s. process_block w n url r b k bd s) data st = (r, st')"
      by simp
    show "grows st st'"
      by (rule extract_page_content_body_grows [OF _ run]) (use Suc.IH in blast)
  next
    fix url parent_path save_content recursive st r st'
    assume "process_page w (Suc n) url parent_path save_content recursive st = (r, st')"
    then have run: "process_page_body w
       (\<lambda>data s. extract_page_content w n url data s)
       (\<lambda>u p s. process_page w n u p save_content True s)
       url parent_path save_content recursive st = (r, st')"
      by simp
    show "grows st st'"
      by (rule process_page_body_grows [OF _ _ run]) (use Suc.IH in blast)+
  qed
qed

lemma process_page_grows:
  "process_page w n url parent_path save_content recursive st = (r, st') \<Longrightarrow> grows st st'"
  using methods_grow [of w n] by blast

lemma extract_page_content_grows:
  "extract_page_content w n url data st = (r, st') \<Longrightarrow> grows st st'"
  using methods_grow [of w n] by blast

lemma process_block_grows:
  "process_block w n url root_page_id blocks block_id block_data st = (r, st') \<Longrightarrow> grows st st'"
  using methods_grow [of w n] by blast

subsection \<open>Visited pages\<close>

lemmas run_defs =
  site_def payload_def block_entry_def init_converter_def
  process_page_body_def extract_page_content_body_def process_block_body_def
  locate_root_def find_root_def root_title_and_content_def open_block_def inner_block_def
  formatted_property_def plain_property_def extract_formatted_text_def
  extract_text_from_property_def on_block_def visit_subpage_def payload_blocks_def
  save_page_def subpage_url_def register_page_def nl_def

lemma visited_page_skipped:
  "url \<in> visited_pages st \<Longrightarrow>
     process_page w (Suc n) url parent_path save_content recursive st = (Inr [], st)"
  by (simp add: process_page_body_def)

lemma process_page_marks:
  assumes "process_page w (Suc n) url parent_path save_content recursive st = (r, st')"
  shows "url \<in> visited_pages st'"
proof (cases "url \<in> visited_pages st")
  case True
  with assms show ?thesis by (simp add: process_page_body_def)
next
  case False
  define st1 where
    "st1 = st\<lparr>visited_pages := insert url (visited_pages st), downloads := downloads st @ [url]\<rparr>"
  have marked: "url \<in> visited_pages st1"
    by (simp add: st1_def)
  have kept: "url \<in> visited_pages s'" if "grows st1 s'" for s'
    using that marked by (auto simp add: grows_def)
  have loop: "grows s s'"
    if "for_each (visit_subpage w (\<lambda>u p s. process_page w n u p save_content True s) url p blocks)
          xs acc s = (q, s')"
    for p blocks xs acc s q s'
  proof -
    have "\<forall>x s q s'. visit_subpage w (\<lambda>u p s. process_page w n u p save_content True s)
             url p blocks x s = (q, s') \<longrightarrow> grows s s'"
      by (auto simp add: visit_subpage_def split: option.splits sum.splits
            dest: process_page_grows)
    from for_each_grows [OF this that] show ?thesis .
  qed
  from assms False have "grows st1 st'"
    unfolding process_page.simps process_page_body_def Let_def st1_def [symmetric]
    by (auto split: option.splits if_splits sum.splits prod.splits
          dest!: extract_page_content_grows grows_save_page loop intro: grows_trans)
  then show ?thesis by (rule kept)
qed

lemma extract_none_keeps_state:
  "extract_page_content w n url data st = (Inr None, st') \<Longrightarrow> st' = st"
  by (cases n)
     (auto simp add: extract_page_content_body_def split: sum.splits option.splits prod.splits)

lemma diamond_crawl:
  "process_page diamond 6 ''https://n.so/A-a'' '''' True True (init_converter ''out'' False)
     = (Inr [\<lparr>title = ''A'', content = ''[B](./B/B.md)'' @ nl @ nl @ ''[C](./C/C.md)'',
              subpages = [''b'', ''c'']\<rparr>,
             \<lparr>title = ''B'', content = ''[D](./D/D.md)'', subpages = [''b'', ''c'', ''d'']\<rparr>,
             \<lparr>title = ''D'', content = ''leaf'', subpages = [''b'', ''c'', ''d'']\<rparr>,
             \<lparr>title = ''C'', content = ''[D](./D/D.md)'', subpages = [''b'', ''c'', ''d'']\<rparr>],
        \<lparr>output_dir = ''out'', single_mode = False,
         visited_pages = {''https://n.so/C-c'', ''https://n.so/D-d'', ''https://n.so/B-b'',
                          ''https://n.so/A-a''},
         page_data = [(''b'', ''B'', JStr ''a''), (''c'', ''C'', JStr ''a''),
                      (''d'', ''D'', JStr ''c'')],
         downloads = [''https://n.so/A-a'', ''https://n.so/B-b'', ''https://n.so/D-d'',
                      ''https://n.so/C-c''],
         files = [(''out/A/A.md'', ''# A'' @ nl @ nl @ ''[B](./B/B.md)'' @ nl @ nl @ ''[C](./C/C.md)''),
                  (''out/A/B/B.md'', ''# B'' @ nl @ nl @ ''[D](./D/D.md)''),
                  (''out/A/B/D/D.md'', ''# D'' @ nl @ nl @ ''leaf''),
                  (''out/A/C/C.md'', ''# C'' @ nl @ nl @ ''[D](./D/D.md)'')]\<rparr>)"
  by (simp add: eval_nat_numeral diamond_def diamond_pages_def run_defs)

text \<open>
  C4. \<^verbatim>\<open>process_page\<close> tests the URL against the visited set before it downloads: for a URL
  already in the set it returns the empty list and leaves the converter as it is, so nothing
  is downloaded. In a run whose downloads so far are pairwise different and all visited (as
  at the start of a run, when there are none), the downloads stay pairwise different through
  any call of \<^verbatim>\<open>process_page\<close>, whatever the pages and whether or not the call ends in an
  exception: no URL is passed to \<^verbatim>\<open>download_page\<close> twice.
\<close>

theorem no_url_fetched_twice:
  assumes "process_page w fuel url parent_path save_content recursive st = (r, st')"
    and "distinct (downloads st)"
    and "set (downloads st) \<subseteq> visited_pages st"
  shows "distinct (downloads st') \<and> set (downloads st') \<subseteq> visited_pages st' \<and>
         (url \<in> visited_pages st \<longrightarrow> st' = st \<and> (0 < fuel \<longrightarrow> r = Inr []))"
proof -
  from assms(1) have "grows st st'"
    by (rule process_page_grows)
  then obtain new where new: "downloads st' = downloads st @ new" "distinct new"
    "set new \<inter> visited_pages st = {}" "set new \<subseteq> visited_pages st'"
    and sub: "visited_pages st \<subseteq> visited_pages st'"
    by (auto simp add: grows_def)
  from new assms(2,3) have "distinct (downloads st')"
    by auto
  moreover from new(1,4) assms(3) sub have "set (downloads st') \<subseteq> visited_pages st'"
    by auto
  moreover have "st' = st \<and> (0 < fuel \<longrightarrow> r = Inr [])" if "url \<in> visited_pages st"
    using that assms(1) by (cases fuel) (simp_all add: process_page_body_def)
  ultimately show ?thesis
    by blast
qed

text \<open>
  C4 on the diamond \<open>A \<rightarrow> B\<close>, \<open>A \<rightarrow> C\<close>, \<open>B \<rightarrow> D\<close>, \<open>C \<rightarrow> D\<close>, crawled from \<open>A\<close> with a fresh
  converter: the four pages are downloaded once each, \<open>D\<close> exactly once.
\<close>

theorem no_url_fetched_twice_witness:
  "distinct (downloads (init_converter ''out'' False)) \<and>
   set (downloads (init_converter ''out'' False)) \<subseteq> visited_pages (init_converter ''out'' False) \<and>
   downloads (snd (process_page diamond 6 ''https://n.so/A-a'' '''' True True
                     (init_converter ''out'' False)))
     = [''https://n.so/A-a'', ''https://n.so/B-b'', ''https://n.so/D-d'', ''https://n.so/C-c''] \<and>
   distinct (downloads (snd (process_page diamond 6 ''https://n.so/A-a'' '''' True True
                               (init_converter ''out'' False)))) \<and>
   count_list (downloads (snd (process_page diamond 6 ''https://n.so/A-a'' '''' True True
                                 (init_converter ''out'' False)))) ''https://n.so/D-d'' = 1"
proof -
  have fresh: "distinct (downloads (init_converter ''out'' False))"
    "set (downloads (init_converter ''out'' False)) \<subseteq> visited_pages (init_converter ''out'' False)"
    by (simp_all add: init_converter_def)
  from no_url_fetched_twice [OF diamond_crawl fresh] fresh show ?thesis
    by (simp add: diamond_crawl)
qed

text \<open>
  C9. Whatever the outcome of a call of \<^verbatim>\<open>process_page\<close> for a URL, the URL is in the visited
  set afterwards, and it is still there in every later state \<open>st2\<close> of the run, in either
  mode; a new call for the URL then returns the empty list and leaves the converter, with
  its list of downloads, as it is. In particular, when the URL was not visited and the
  download fails (no document or an empty one), or no payload can be extracted from the
  document, or \<^verbatim>\<open>extract_page_content\<close> returns \<^verbatim>\<open>None\<close>, the call returns the empty list and
  its only effect is that the URL is marked visited, with its one download recorded.
  The later states are those related by \<open>grows\<close>: every call of \<^verbatim>\<open>process_block\<close>,
  \<^verbatim>\<open>extract_page_content\<close> and \<^verbatim>\<open>process_page\<close> leads to such a state, so does the
  registration of a page block, and the relation is transitive.
\<close>

theorem failed_page_stays_visited:
  assumes "process_page w (Suc n) url parent_path save_content recursive st = (r, st1)"
    and "grows st1 st2"
  shows "url \<in> visited_pages st1 \<and> url \<in> visited_pages st2 \<and>
         process_page w (Suc m) url parent_path' save_content' recursive' st2 = (Inr [], st2) \<and>
         (url \<notin> visited_pages st \<and>
          (download_page w url = None \<or> download_page w url = Some [] \<or>
           (\<exists>html. download_page w url = Some html \<and>
              (extract_json_data w html = None \<or>
               (\<exists>data. extract_json_data w html = Some data \<and>
                  fst (extract_page_content w n url data
                         (st\<lparr>visited_pages := insert url (visited_pages st),
                             downloads := downloads st @ [url]\<rparr>)) = Inr None)))) \<longrightarrow>
          r = Inr [] \<and>
          st1 = st\<lparr>visited_pages := insert url (visited_pages st),
                   downloads := downloads st @ [url]\<rparr>) \<and>
         (\<forall>k u root bs b bd s q s'.
            process_block w k u root bs b bd s = (q, s') \<longrightarrow> grows s s') \<and>
         (\<forall>k u d s q s'. extract_page_content w k u d s = (q, s') \<longrightarrow> grows s s') \<and>
         (\<forall>k u p sc rc s q s'. process_page w k u p sc rc s = (q, s') \<longrightarrow> grows s s') \<and>
         (\<forall>b t root s. grows s (register_page b t root s)) \<and>
         (\<forall>s s' s''. grows s s' \<and> grows s' s'' \<longrightarrow> grows s s'')"
proof -
  from assms(1) have first: "url \<in> visited_pages st1"
    by (rule process_page_marks)
  with assms(2) have second: "url \<in> visited_pages st2"
    by (auto simp add: grows_def)
  then have again: "process_page w (Suc m) url parent_path' save_content' recursive' st2
                      = (Inr [], st2)"
    by (rule visited_page_skipped)
  have failed: "r = Inr [] \<and>
      st1 = st\<lparr>visited_pages := insert url (visited_pages st), downloads := downloads st @ [url]\<rparr>"
    if new: "url \<notin> visited_pages st"
      and why: "download_page w url = None \<or> download_page w url = Some [] \<or>
           (\<exists>html. download_page w url = Some html \<and>
              (extract_json_data w html = None \<or>
               (\<exists>data. extract_json_data w html = Some data \<and>
                  fst (extract_page_content w n url data
                         (st\<lparr>visited_pages := insert url (visited_pages st),
                             downloads := downloads st @ [url]\<rparr>)) = Inr None)))"
  proof -
    define st0 where
      "st0 = st\<lparr>visited_pages := insert url (visited_pages st), downloads := downloads st @ [url]\<rparr>"
    have none: "s' = st0" if "extract_page_content w n url data st0 = (Inr None, s')" for data s'
      using that by (rule extract_none_keeps_state)
    from why consider (download) "download_page w url = None \<or> download_page w url = Some []"
      | (payload) html where "download_page w url = Some html" "extract_json_data w html = None"
      | (content) html data where "download_page w url = Some html"
          "extract_json_data w html = Some data"
          "fst (extract_page_content w n url data st0) = Inr None"
      unfolding st0_def by blast
    then have "r = Inr [] \<and> st1 = st0"
    proof cases
      case download
      with assms(1) new show ?thesis
        by (auto simp add: process_page_body_def st0_def)
    next
      case payload
      with assms(1) new show ?thesis
        by (auto simp add: process_page_body_def st0_def Let_def split: if_splits)
    next
      case content
      obtain s' where ex: "extract_page_content w n url data st0 = (Inr None, s')"
        using content(3) by (cases "extract_page_content w n url data st0") simp
      with none have "s' = st0"
        by simp
      with ex content(1,2) assms(1) new show ?thesis
        unfolding process_page.simps process_page_body_def Let_def st0_def [symmetric]
        by (simp split: if_splits)
    qed
    then show ?thesis
      by (simp add: st0_def)
  qed
  have calls:
    "\<forall>k u root bs b bd s q s'. process_block w k u root bs b bd s = (q, s') \<longrightarrow> grows s s'"
    "\<forall>k u d s q s'. extract_page_content w k u d s = (q, s') \<longrightarrow> grows s s'"
    "\<forall>k u p sc rc s q s'. process_page w k u p sc rc s = (q, s') \<longrightarrow> grows s s'"
    by (blast intro: process_block_grows, blast intro: extract_page_content_grows,
        blast intro: process_page_grows)
  have steps: "\<forall>b t root s. grows s (register_page b t root s)"
    "\<forall>s s' s''. grows s s' \<and> grows s' s'' \<longrightarrow> grows s s''"
    by (blast intro: grows_register_page, blast intro: grows_trans)
  from first second again failed calls steps show ?thesis
    by blast
qed

text \<open>
  C9 in single-file mode, where page \<open>D\<close> cannot be downloaded: the first call for \<open>D\<close> marks
  it visited; rendering the page block \<open>d\<close> of page \<open>C\<close> afterwards makes the nested call for
  \<open>D\<close>, downloads nothing and registers the block; and in the state reached a further call
  for \<open>D\<close> returns the empty list at once.
\<close>

theorem failed_page_stays_visited_witness:
  "download_page diamond_without_d ''https://n.so/D-d'' = None \<and>
   process_page diamond_without_d (Suc 0) ''https://n.so/D-d'' '''' True False
       (init_converter ''out'' True)
     = (Inr [],
        \<lparr>output_dir = ''out'', single_mode = True, visited_pages = {''https://n.so/D-d''},
         page_data = [], downloads = [''https://n.so/D-d''], files = []\<rparr>) \<and>
   process_block diamond_without_d (Suc (Suc 0)) ''https://n.so/C-c'' (JStr ''c'')
       [(''c'', block_entry ''page'' ''C'' [''d'']), (''d'', block_entry ''page'' ''D'' [])]
       ''d'' (block_entry ''page'' ''D'' [])
       \<lparr>output_dir = ''out'', single_mode = True, visited_pages = {''https://n.so/D-d''},
        page_data = [], downloads = [''https://n.so/D-d''], files = []\<rparr>
     = (Inr [],
        \<lparr>output_dir = ''out'', single_mode = True, visited_pages = {''https://n.so/D-d''},
         page_data = [(''d'', ''D'', JStr ''c'')], downloads = [''https://n.so/D-d''],
         files = []\<rparr>) \<and>
   grows
       \<lparr>output_dir = ''out'', single_mode = True, visited_pages = {''https://n.so/D-d''},
        page_data = [], downloads = [''https://n.so/D-d''], files = []\<rparr>
       \<lparr>output_dir = ''out'', single_mode = True, visited_pages = {''https://n.so/D-d''},
        page_data = [(''d'', ''D'', JStr ''c'')], downloads = [''https://n.so/D-d''],
        files = []\<rparr> \<and>
   process_page diamond_without_d (Suc 0) ''https://n.so/D-d'' '''' False False
       \<lparr>output_dir = ''out'', single_mode = True, visited_pages = {''https://n.so/D-d''},
        page_data = [(''d'', ''D'', JStr ''c'')], downloads = [''https://n.so/D-d''],
        files = []\<rparr>
     = (Inr [],
        \<lparr>output_dir = ''out'', single_mode = True, visited_pages = {''https://n.so/D-d''},
         page_data = [(''d'', ''D'', JStr ''c'')], downloads = [''https://n.so/D-d''],
         files = []\<rparr>)"
proof -
  have no_page: "download_page diamond_without_d ''https://n.so/D-d'' = None"
    by (simp add: diamond_without_d_def diamond_pages_def site_def)
  have first: "process_page diamond_without_d (Suc 0) ''https://n.so/D-d'' '''' True False
       (init_converter ''out'' True)
     = (Inr [],
        \<lparr>output_dir = ''out'', single_mode = True, visited_pages = {''https://n.so/D-d''},
         page_data = [], downloads = [''https://n.so/D-d''], files = []\<rparr>)"
    by (simp add: diamond_without_d_def diamond_pages_def run_defs)
  have block: "process_block diamond_without_d (Suc (Suc 0)) ''https://n.so/C-c'' (JStr ''c'')
       [(''c'', block_entry ''page'' ''C'' [''d'']), (''d'', block_entry ''page'' ''D'' [])]
       ''d'' (block_entry ''page'' ''D'' [])
       \<lparr>output_dir = ''out'', single_mode = True, visited_pages = {''https://n.so/D-d''},
        page_data = [], downloads = [''https://n.so/D-d''], files = []\<rparr>
     = (Inr [],
        \<lparr>output_dir = ''out'', single_mode = True, visited_pages = {''https://n.so/D-d''},
         page_data = [(''d'', ''D'', JStr ''c'')], downloads = [''https://n.so/D-d''],
         files = []\<rparr>)"
    by (simp add: diamond_without_d_def diamond_pages_def run_defs)
  then have later: "grows
       \<lparr>output_dir = ''out'', single_mode = True, visited_pages = {''https://n.so/D-d''},
        page_data = [], downloads = [''https://n.so/D-d''], files = []\<rparr>
       \<lparr>output_dir = ''out'', single_mode = True, visited_pages = {''https://n.so/D-d''},
        page_data = [(''d'', ''D'', JStr ''c'')], downloads = [''https://n.so/D-d''],
        files = []\<rparr>"
    by (rule process_block_grows)
  from failed_page_stays_visited [OF first later, of 0 "''''" False False]
       no_page first block later
  show ?thesis
    by blast
qed

subsection \<open>Images without a source, payloads without a root\<close>

text \<open>
  C1 fails on the code. An image block that has a caption and no \<open>source\<close> property makes
  \<^verbatim>\<open>process_block\<close> raise, for every block table, root page and converter: the absent source
  is the empty list, which the unwrapping loop leaves as it is, and \<^verbatim>\<open>quote\<close> is called on it
  before the test \<^verbatim>\<open>if source\<close> is reached. For an image block without any property the
  exception is the \<^verbatim>\<open>TypeError\<close> of \<^verbatim>\<open>quote\<close>.
\<close>

theorem image_without_source_raises:
  "isl (fst (process_block w (Suc n) url root_page_id blocks block_id
               (JObj [(''value'', JObj [(''value'',
                  JObj [(''type'', JStr ''image''),
                        (''properties'', JObj [(''caption'', caption)])])])]) st)) \<and>
   process_block (site []) (Suc 0) ''https://n.so/P-p'' (JStr ''p'') [] ''img''
       (JObj [(''value'', JObj [(''value'', JObj [(''type'', JStr ''image'')])])])
       (init_converter ''out'' False)
     = (Inl TypeError, init_converter ''out'' False)"
proof
  have "isl (render_image w root_page_id blocks block_id (JObj [(''caption'', caption)]))"
    by (cases "blocks_get blocks root_page_id")
       (auto simp add: render_image_def bind_def split: sum.splits)
  then show "isl (fst (process_block w (Suc n) url root_page_id blocks block_id
               (JObj [(''value'', JObj [(''value'',
                  JObj [(''type'', JStr ''image''),
                        (''properties'', JObj [(''caption'', caption)])])])]) st))"
    by (simp add: process_block_body_def open_block_def)
next
  show "process_block (site []) (Suc 0) ''https://n.so/P-p'' (JStr ''p'') [] ''img''
       (JObj [(''value'', JObj [(''value'', JObj [(''type'', JStr ''image'')])])])
       (init_converter ''out'' False)
     = (Inl TypeError, init_converter ''out'' False)"
    by (simp add: process_block_body_def open_block_def render_image_def)
qed

text \<open>
  C3 fails on the code. A payload whose \<open>pageId\<close> names no block of the block table, and
  whose block table holds no block of type \<open>page\<close>, is not a failure: the identifier that did
  not resolve is kept as the root, and the result is a page with empty title and content.
  And a payload without \<open>pageId\<close> whose block table holds a page block as \<^verbatim>\<open>process_block\<close>
  reads blocks (the type under \<^verbatim>\<open>value.value\<close>) is a failure: the scan reads the type under
  \<^verbatim>\<open>value\<close>.
\<close>

theorem dangling_page_id_is_no_failure:
  "extract_page_content w (Suc n) url (payload ''missing'' []) st
     = (Inr (Some \<lparr>title = '''', content = '''', subpages = map fst (page_data st)\<rparr>), st) \<and>
   extract_page_content w (Suc n) url
       (JObj [(''recordMap'', JObj [(''block'', JObj [(''p'', block_entry ''page'' ''P'' [])])])]) st
     = (Inr None, st)"
  by (simp add: extract_page_content_body_def locate_root_def find_root_def payload_def
        root_title_and_content_def inner_block_def plain_property_def
        extract_text_from_property_def block_entry_def)

subsection \<open>Page blocks in single-file mode\<close>

lemma not_recursive_one_page:
  assumes "process_page w n url parent_path save_content False st = (Inr pages, st')"
  shows "length pages \<le> 1"
proof (cases n)
  case 0
  with assms show ?thesis by simp
next
  case (Suc m)
  with assms show ?thesis
    by (auto simp add: process_page_body_def Let_def
          split: if_splits option.splits sum.splits prod.splits)
qed

lemma diamond_inlined:
  "process_page diamond 9 ''https://n.so/A-a'' '''' True False (init_converter ''out'' True)
     = (Inr [\<lparr>title = ''A'',
              content = ''# B'' @ nl @ nl @ ''# D'' @ nl @ nl @ ''leaf'' @ nl @ nl @ ''# C'' @ nl @ nl,
              subpages = [''d'', ''b'', ''c'']\<rparr>],
        \<lparr>output_dir = ''out'', single_mode = True,
         visited_pages = {''https://n.so/C-c'', ''https://n.so/D-d'', ''https://n.so/B-b'',
                          ''https://n.so/A-a''},
         page_data = [(''d'', ''D'', JStr ''c''), (''b'', ''B'', JStr ''a''),
                      (''c'', ''C'', JStr ''a'')],
         downloads = [''https://n.so/A-a'', ''https://n.so/B-b'', ''https://n.so/D-d'',
                      ''https://n.so/C-c''],
         files = [(''out/A/A.md'',
                   ''# A'' @ nl @ nl @ ''# B'' @ nl @ nl @ ''# D'' @ nl @ nl @ ''leaf'' @ nl @ nl
                   @ ''# C'' @ nl @ nl)]\<rparr>)"
  by (simp add: eval_nat_numeral diamond_def diamond_pages_def run_defs)

text \<open>
  C6, as amended. In single-file mode a page block is rendered by a nested call of
  \<^verbatim>\<open>process_page\<close> for the subpage's URL, with \<^verbatim>\<open>save_content\<close> and \<^verbatim>\<open>recursive\<close> false. When
  the call yields the page, the block renders to a heading with the block's title followed
  by the subpage's body, and no link; when it yields nothing (the URL was visited or the
  page could not be read), the block renders to nothing. The nested call returns at most
  the page itself: \<^verbatim>\<open>recursive=False\<close> switches off the loop over its subpages. The converter
  is still in single-file mode during and after the nested call, so this rule applies again
  to every page block in the subpage's own content: inlining is not limited to one level.
\<close>

theorem single_mode_inlines_page:
  assumes "open_block block_data = Inr (Some (block, JStr ''page'', block_properties, ids))"
    and "formatted_property w block_properties ''title'' = Inr page_title"
    and "single_mode st"
    and "process_page w n (subpage_url w url page_title block_id) '''' False False st
           = (Inr pages, st')"
  shows "process_block w (Suc n) url root_page_id blocks block_id block_data st
           = (Inr (case pages of [] \<Rightarrow> [] | pc # rest \<Rightarrow> [''# '' @ page_title, content pc]),
              register_page block_id page_title root_page_id st') \<and>
         length pages \<le> 1 \<and> single_mode st'"
proof -
  from assms(4) have "grows st st'"
    by (rule process_page_grows)
  with assms(3) have "single_mode st'"
    by (simp add: grows_def)
  moreover from assms(4) have "length pages \<le> 1"
    by (rule not_recursive_one_page)
  moreover from assms have "process_block w (Suc n) url root_page_id blocks block_id block_data st
           = (Inr (case pages of [] \<Rightarrow> [] | pc # rest \<Rightarrow> [''# '' @ page_title, content pc]),
              register_page block_id page_title root_page_id st')"
    by (simp add: process_block_body_def)
  ultimately show ?thesis
    by simp
qed

text \<open>
  C6, as amended, at the page block \<open>b\<close> of page \<open>A\<close> of the diamond, in single-file mode:
  page \<open>B\<close> is inlined under the heading \<open># B\<close>, and its body already has page \<open>D\<close> inlined.
\<close>

theorem single_mode_inlines_page_witness:
  "open_block (block_entry ''page'' ''B'' [])
     = Inr (Some (JObj [(''type'', JStr ''page''),
                        (''properties'', JObj [(''title'', JList [JList [JStr ''B'']])]),
                        (''content'', JList [])],
                  JStr ''page'', JObj [(''title'', JList [JList [JStr ''B'']])], JList [])) \<and>
   formatted_property diamond (JObj [(''title'', JList [JList [JStr ''B'']])]) ''title''
     = Inr ''B'' \<and>
   single_mode (init_converter ''out'' True) \<and>
   process_page diamond 6 (subpage_url diamond ''https://n.so/A-a'' ''B'' ''b'') '''' False False
       (init_converter ''out'' True)
     = (Inr [\<lparr>title = ''B'', content = ''# D'' @ nl @ nl @ ''leaf'', subpages = [''d'']\<rparr>],
        \<lparr>output_dir = ''out'', single_mode = True,
         visited_pages = {''https://n.so/D-d'', ''https://n.so/B-b''},
         page_data = [(''d'', ''D'', JStr ''b'')],
         downloads = [''https://n.so/B-b'', ''https://n.so/D-d''], files = []\<rparr>) \<and>
   process_block diamond (Suc 6) ''https://n.so/A-a'' (JStr ''a'') [] ''b''
       (block_entry ''page'' ''B'' []) (init_converter ''out'' True)
     = (Inr [''# B'', ''# D'' @ nl @ nl @ ''leaf''],
        \<lparr>output_dir = ''out'', single_mode = True,
         visited_pages = {''https://n.so/D-d'', ''https://n.so/B-b''},
         page_data = [(''d'', ''D'', JStr ''b''), (''b'', ''B'', JStr ''a'')],
         downloads = [''https://n.so/B-b'', ''https://n.so/D-d''], files = []\<rparr>)"
proof -
  have opened: "open_block (block_entry ''page'' ''B'' [])
     = Inr (Some (JObj [(''type'', JStr ''page''),
                        (''properties'', JObj [(''title'', JList [JList [JStr ''B'']])]),
                        (''content'', JList [])],
                  JStr ''page'', JObj [(''title'', JList [JList [JStr ''B'']])], JList []))"
    by (simp add: open_block_def block_entry_def)
  have titled: "formatted_property diamond (JObj [(''title'', JList [JList [JStr ''B'']])]) ''title''
     = Inr ''B''"
    by (simp add: formatted_property_def extract_formatted_text_def)
  have single: "single_mode (init_converter ''out'' True)"
    by (simp add: init_converter_def)
  have nested: "process_page diamond 6 (subpage_url diamond ''https://n.so/A-a'' ''B'' ''b'') ''''
       False False (init_converter ''out'' True)
     = (Inr [\<lparr>title = ''B'', content = ''# D'' @ nl @ nl @ ''leaf'', subpages = [''d'']\<rparr>],
        \<lparr>output_dir = ''out'', single_mode = True,
         visited_pages = {''https://n.so/D-d'', ''https://n.so/B-b''},
         page_data = [(''d'', ''D'', JStr ''b'')],
         downloads = [''https://n.so/B-b'', ''https://n.so/D-d''], files = []\<rparr>)"
    by (simp add: eval_nat_numeral diamond_def diamond_pages_def run_defs)
  from single_mode_inlines_page [OF opened titled single nested, of "JStr ''a''" "[]"]
       opened titled single nested
  show ?thesis
    by (simp add: register_page_def)
qed

text \<open>
  C6 as stated fails on the diamond in single-file mode, started as \<^verbatim>\<open>main\<close> starts it
  (\<^verbatim>\<open>recursive\<close> false): page \<open>D\<close> is referred to only by page blocks in the contents of \<open>B\<close> and
  \<open>C\<close>; while \<open>B\<close> is inlined into \<open>A\<close>, the page block for \<open>D\<close> in the content of \<open>B\<close> triggers a
  further nested download, and the body of \<open>D\<close> appears in \<open>A\<close> two levels deep.
\<close>

theorem nested_inlining_counterexample:
  "downloads (snd (process_page diamond 9 ''https://n.so/A-a'' '''' True False
                     (init_converter ''out'' True)))
     = [''https://n.so/A-a'', ''https://n.so/B-b'', ''https://n.so/D-d'', ''https://n.so/C-c''] \<and>
   map content (projr (fst (process_page diamond 9 ''https://n.so/A-a'' '''' True False
                              (init_converter ''out'' True))))
     = [''# B'' @ nl @ nl @ ''# D'' @ nl @ nl @ ''leaf'' @ nl @ nl @ ''# C'' @ nl @ nl]"
  by (simp add: diamond_inlined)

subsection \<open>The subpages of a page\<close>

lemma for_each_invariant:
  assumes body: "\<forall>x s q s'. I s \<and> body x s = (q, s') \<longrightarrow> I s'"
  shows "I st \<Longrightarrow> for_each body xs acc st = (r, st') \<Longrightarrow> I st'"
proof (induction xs arbitrary: acc st)
  case Nil
  then show ?case by simp
next
  case (Cons x xs)
  obtain r1 s1 where step: "body x st = (r1, s1)"
    by (cases "body x st")
  with body Cons.prems(1) have inv: "I s1"
    by blast
  show ?case
  proof (cases r1)
    case (Inl e)
    with step Cons.prems inv show ?thesis by simp
  next
    case (Inr out)
    with step Cons.prems have "for_each body xs (acc @ out) s1 = (r, st')"
      by simp
    with inv show ?thesis
      by (rule Cons.IH)
  qed
qed

lemma lookup_block_Some:
  "lookup_block blocks child_id = Inr (Some (k, block_data)) \<Longrightarrow> map_of blocks k = Some block_data"
  by (cases child_id) (auto split: option.splits)

lemma key_set_dict_set: "fst ` set (dict_set k v d) = insert k (fst ` set d)"
  by (induction d) auto

lemma on_block_invariant:
  assumes f: "\<forall>k bd s q s'. map_of blocks k = Some bd \<and> I s \<and> f k bd s = (q, s') \<longrightarrow> I s'"
    and inv: "I s"
    and run: "on_block f blocks x s = (q, s')"
  shows "I s'"
proof (cases "lookup_block blocks x")
  case (Inl e)
  with run inv show ?thesis by (simp add: on_block_def)
next
  case (Inr found)
  show ?thesis
  proof (cases found)
    case None
    with Inr run inv show ?thesis by (simp add: on_block_def)
  next
    case (Some entry)
    obtain k bd where entry: "entry = (k, bd)"
      by (cases entry)
    with Inr Some have "map_of blocks k = Some bd"
      by (simp add: lookup_block_Some)
    moreover from Inr Some entry run have "f k bd s = (q, s')"
      by (simp add: on_block_def)
    ultimately show ?thesis
      using f inv by blast
  qed
qed

lemma children_invariant:
  assumes f: "\<forall>k bd s q s'. map_of blocks k = Some bd \<and> I s \<and> f k bd s = (q, s') \<longrightarrow> I s'"
    and inv: "I st"
    and run: "for_each (on_block f blocks) ids acc st = (r, st')"
  shows "I st'"
proof -
  have "\<forall>x s q s'. I s \<and> on_block f blocks x s = (q, s') \<longrightarrow> I s'"
    using on_block_invariant [OF f] by blast
  from for_each_invariant [OF this inv run] show ?thesis .
qed

lemma process_block_body_registers:
  assumes spb: "\<forall>k bd s q s'.
                  map_of blocks k = Some bd \<and> registered_within B s \<and>
                  self_process_block k bd s = (q, s') \<longrightarrow> registered_within B s'"
    and pages: "{k. page_typed blocks k} \<subseteq> B"
    and entry: "map_of blocks block_id = Some block_data"
    and inv: "registered_within B st"
    and run: "process_block_body w self_process_block self_process_page
                url root_page_id blocks block_id block_data st = (r, st')"
  shows "registered_within B st'"
proof (cases "open_block block_data")
  case (Inl e)
  with run inv show ?thesis by (simp add: process_block_body_def)
next
  case (Inr opened)
  show ?thesis
  proof (cases opened)
    case None
    with Inr run inv show ?thesis by (simp add: process_block_body_def)
  next
    case (Some fields)
    obtain block block_type block_properties block_content_ids
      where fields: "fields = (block, block_type, block_properties, block_content_ids)"
      by (cases fields)
    note opened = Inr Some fields
    have children: "registered_within B st'"
      if "st' = st \<or> (\<exists>ids q. for_each (on_block self_process_block blocks) ids [] st = (q, st'))"
      using that inv children_invariant [OF spb inv] by blast
    consider (toggle) "block_type = JStr ''toggle''"
      | (page) "block_type = JStr ''page''"
      | (column) "block_type = JStr ''column_list'' \<or> block_type = JStr ''column''"
      | (leaf) "block_type \<noteq> JStr ''toggle''" "block_type \<noteq> JStr ''page''"
          "block_type \<noteq> JStr ''column_list''" "block_type \<noteq> JStr ''column''"
      by blast
    then show ?thesis
    proof cases
      case toggle
      with opened run
      have "st' = st \<or> (\<exists>ids q. for_each (on_block self_process_block blocks) ids [] st = (q, st'))"
        by (auto simp add: process_block_body_def split: sum.splits prod.splits)
      then show ?thesis by (rule children)
    next
      case page
      with opened entry have "page_typed blocks block_id"
        by (simp add: page_typed_def)
      with pages have "block_id \<in> B"
        by blast
      with inv have registered: "registered_within B (register_page block_id t root_page_id st)"
        for t
        by (simp add: registered_within_def register_page_def key_set_dict_set)
      from inv have "\<not> single_mode st"
        by (simp add: registered_within_def)
      with page opened run
      have "st' = st \<or> (\<exists>t. st' = register_page block_id t root_page_id st)"
        by (auto simp add: process_block_body_def split: sum.splits)
      with inv registered show ?thesis
        by blast
    next
      case column
      with opened run
      have "st' = st \<or> (\<exists>ids q. for_each (on_block self_process_block blocks) ids [] st = (q, st'))"
        by (auto simp add: process_block_body_def split: sum.splits prod.splits)
      then show ?thesis by (rule children)
    next
      case leaf
      with opened run have "st' = st"
        by (simp add: process_block_body_def split: if_splits)
      with inv show ?thesis by simp
    qed
  qed
qed

lemma process_block_registers:
  assumes "{k. page_typed blocks k} \<subseteq> B"
  shows "map_of blocks block_id = Some block_data \<Longrightarrow> registered_within B st \<Longrightarrow>
         process_block w n url root_page_id blocks block_id block_data st = (r, st') \<Longrightarrow>
         registered_within B st'"
proof (induction n arbitrary: block_id block_data st r st')
  case 0
  then show ?case by simp
next
  case (Suc n)
  from Suc.prems(3) have run: "process_block_body w
       (\<lambda>k bd s. process_block w n url root_page_id blocks k bd s)
       (\<lambda>u s. process_page w n u '''' False False s)
       url root_page_id blocks block_id block_data st = (r, st')"
    by simp
  have "\<forall>k bd s q s'.
          map_of blocks k = Some bd \<and> registered_within B s \<and>
          process_block w n url root_page_id blocks k bd s = (q, s') \<longrightarrow> registered_within B s'"
    using Suc.IH by blast
  from process_block_body_registers [OF this assms Suc.prems(1,2) run]
  show ?case .
qed

lemma locate_root_blocks:
  assumes "locate_root data = Inr (Some (blocks, root_page_id))"
  shows "payload_blocks data = Inr blocks"
proof -
  from assms obtain record_map table page_id
    where "subscript data ''recordMap'' = Inr record_map"
      and "subscript record_map ''block'' = Inr table"
      and "(case table of
              JObj kvs \<Rightarrow>
                bind (find_root page_id kvs) (\<lambda>root_page_id.
                  if \<not> truthy root_page_id then Inr None else Inr (Some (kvs, root_page_id)))
            | _ \<Rightarrow> Inl (no_block_table page_id table)) = Inr (Some (blocks, root_page_id))"
    by (auto simp add: locate_root_def bind_eq_Inr split: if_splits)
  then show ?thesis
    by (cases table) (auto simp add: payload_blocks_def bind_eq_Inr split: if_splits)
qed

lemma extract_registers:
  assumes run: "extract_page_content w n url data st = (Inr (Some pc), st')"
    and multi: "\<not> single_mode st"
  shows "\<exists>blocks. payload_blocks data = Inr blocks \<and>
           set (map fst (page_data st'))
             \<subseteq> set (map fst (page_data st)) \<union> {k. page_typed blocks k}"
proof (cases n)
  case 0
  with run show ?thesis by simp
next
  case (Suc m)
  with run obtain blocks root_page_id content_ids lines
    where root: "locate_root data = Inr (Some (blocks, root_page_id))"
      and loop: "for_each
                   (on_block (\<lambda>k bd s. process_block w m url root_page_id blocks k bd s) blocks)
                   content_ids [] st = (Inr lines, st')"
    by (auto simp add: extract_page_content_body_def
          split: sum.splits option.splits prod.splits)
  define B where "B = set (map fst (page_data st)) \<union> {k. page_typed blocks k}"
  have "{k. page_typed blocks k} \<subseteq> B"
    by (simp add: B_def)
  from process_block_registers [OF this]
  have step: "\<forall>k bd s q s'.
          map_of blocks k = Some bd \<and> registered_within B s \<and>
          process_block w m url root_page_id blocks k bd s = (q, s') \<longrightarrow> registered_within B s'"
    by blast
  from multi have "registered_within B st"
    by (simp add: registered_within_def B_def)
  from children_invariant [OF step this loop]
  have "set (map fst (page_data st')) \<subseteq> B"
    by (simp add: registered_within_def)
  with locate_root_blocks [OF root] show ?thesis
    unfolding B_def by blast
qed

lemma extract_subpages:
  "extract_page_content w n url data st = (Inr (Some pc), st') \<Longrightarrow>
     subpages pc = map fst (page_data st')"
  by (cases n)
     (auto simp add: extract_page_content_body_def split: sum.splits option.splits prod.splits)

lemma for_each_pages:
  assumes body: "\<forall>x s out s'. \<not> single_mode s \<and> body x s = (Inr out, s') \<longrightarrow>
                   \<not> single_mode s' \<and>
                   set (map fst (page_data s')) = set (map fst (page_data s)) \<union> F x"
  shows "\<not> single_mode st \<Longrightarrow> for_each body xs acc st = (Inr out, st') \<Longrightarrow>
         \<not> single_mode st' \<and>
         set (map fst (page_data st')) = set (map fst (page_data st)) \<union> (\<Union>x \<in> set xs. F x)"
proof (induction xs arbitrary: acc st)
  case Nil
  then show ?case by simp
next
  case (Cons x xs)
  obtain r1 s1 where step: "body x st = (r1, s1)"
    by (cases "body x st")
  show ?case
  proof (cases r1)
    case (Inl e)
    with step Cons.prems show ?thesis by simp
  next
    case (Inr lines)
    with step body Cons.prems(1)
    have one: "\<not> single_mode s1"
      "set (map fst (page_data s1)) = set (map fst (page_data st)) \<union> F x"
      by blast+
    from Inr step Cons.prems(2) have "for_each body xs (acc @ lines) s1 = (Inr out, st')"
      by simp
    from Cons.IH [OF one(1) this] one(2) show ?thesis
      by auto
  qed
qed

lemma children_pages:
  assumes f: "\<forall>k bd s out s'. \<not> single_mode s \<and> f k bd s = (Inr out, s') \<longrightarrow>
                \<not> single_mode s' \<and>
                set (map fst (page_data s')) = set (map fst (page_data s)) \<union> R k bd"
    and multi: "\<not> single_mode st"
    and run: "for_each (on_block f blocks) ids acc st = (Inr out, st')"
  shows "\<not> single_mode st' \<and>
         set (map fst (page_data st'))
           = set (map fst (page_data st)) \<union> pages_of_children R blocks ids"
proof -
  have "\<not> single_mode s' \<and>
        set (map fst (page_data s')) = set (map fst (page_data s))
          \<union> (case lookup_block blocks x of Inr (Some (k, bd)) \<Rightarrow> R k bd | _ \<Rightarrow> {})"
    if "\<not> single_mode s" and "on_block f blocks x s = (Inr lines, s')" for x s lines s'
  proof (cases "lookup_block blocks x")
    case (Inl e)
    with that show ?thesis by (simp add: on_block_def)
  next
    case (Inr found)
    show ?thesis
    proof (cases found)
      case None
      with Inr that show ?thesis by (simp add: on_block_def)
    next
      case (Some entry)
      obtain k bd where entry: "entry = (k, bd)"
        by (cases entry)
      with Inr Some that(2) have "f k bd s = (Inr lines, s')"
        by (simp add: on_block_def)
      with f that(1) have "\<not> single_mode s' \<and>
          set (map fst (page_data s')) = set (map fst (page_data s)) \<union> R k bd"
        by blast
      with Inr Some entry show ?thesis by simp
    qed
  qed
  then have "\<forall>x s out s'. \<not> single_mode s \<and> on_block f blocks x s = (Inr out, s') \<longrightarrow>
               \<not> single_mode s' \<and>
               set (map fst (page_data s')) = set (map fst (page_data s))
                 \<union> (case lookup_block blocks x of Inr (Some (k, bd)) \<Rightarrow> R k bd | _ \<Rightarrow> {})"
    by blast
  from for_each_pages [OF this multi run] show ?thesis
    by (simp add: pages_of_children_def)
qed

lemma process_block_pages:
  "\<not> single_mode st \<Longrightarrow>
   process_block w n url root_page_id blocks block_id block_data st = (Inr out, st') \<Longrightarrow>
   \<not> single_mode st' \<and>
   set (map fst (page_data st'))
     = set (map fst (page_data st)) \<union> block_pages n blocks block_id block_data"
proof (induction n arbitrary: block_id block_data st out st')
  case 0
  then show ?case by simp
next
  case (Suc n)
  from Suc.prems(2) have run: "process_block_body w
       (\<lambda>k bd s. process_block w n url root_page_id blocks k bd s)
       (\<lambda>u s. process_page w n u '''' False False s)
       url root_page_id blocks block_id block_data st = (Inr out, st')"
    by simp
  have step: "\<forall>k bd s out s'. \<not> single_mode s \<and>
          process_block w n url root_page_id blocks k bd s = (Inr out, s') \<longrightarrow>
          \<not> single_mode s' \<and>
          set (map fst (page_data s'))
            = set (map fst (page_data s)) \<union> block_pages n blocks k bd"
    using Suc.IH by blast
  note multi = Suc.prems(1)
  show ?case
  proof (cases "open_block block_data")
    case (Inl e)
    with run show ?thesis by (simp add: process_block_body_def)
  next
    case (Inr opened)
    show ?thesis
    proof (cases opened)
      case None
      with Inr run multi show ?thesis by (simp add: process_block_body_def)
    next
      case (Some fields)
      obtain block block_type block_properties block_content_ids
        where fields: "fields = (block, block_type, block_properties, block_content_ids)"
        by (cases fields)
      note opened = Inr Some fields
      have children: "\<not> single_mode st' \<and>
          set (map fst (page_data st'))
            = set (map fst (page_data st))
              \<union> pages_of_children (\<lambda>k' bd. block_pages n blocks k' bd) blocks
                  (case py_iter block_content_ids of Inr cs \<Rightarrow> cs | Inl e \<Rightarrow> [])"
        if "\<exists>ids lines. py_iter block_content_ids = Inr ids \<and>
              for_each (on_block (\<lambda>k bd s. process_block w n url root_page_id blocks k bd s)
                          blocks) ids [] st = (Inr lines, st')"
      proof -
        from that obtain ids lines where ids: "py_iter block_content_ids = Inr ids"
          and loop: "for_each (on_block (\<lambda>k bd s. process_block w n url root_page_id blocks k bd s)
                          blocks) ids [] st = (Inr lines, st')"
          by blast
        from children_pages [OF step multi loop] ids show ?thesis
          by simp
      qed
      consider (toggle) "block_type = JStr ''toggle''"
        | (page) "block_type = JStr ''page''"
        | (column) "block_type = JStr ''column_list'' \<or> block_type = JStr ''column''"
        | (leaf) "block_type \<noteq> JStr ''toggle''" "block_type \<noteq> JStr ''page''"
            "block_type \<noteq> JStr ''column_list''" "block_type \<noteq> JStr ''column''"
        by blast
      then show ?thesis
      proof cases
        case toggle
        with opened run
        have "\<exists>ids lines. py_iter block_content_ids = Inr ids \<and>
              for_each (on_block (\<lambda>k bd s. process_block w n url root_page_id blocks k bd s)
                          blocks) ids [] st = (Inr lines, st')"
          by (auto simp add: process_block_body_def bind_eq_Inr split: sum.splits prod.splits)
        from children [OF this] toggle opened show ?thesis
          by simp
      next
        case page
        with opened run multi
        have "\<exists>t. st' = register_page block_id t root_page_id st"
          by (auto simp add: process_block_body_def split: sum.splits)
        then obtain t where st': "st' = register_page block_id t root_page_id st"
          by blast
        have "set (map fst (page_data (register_page block_id t root_page_id st)))
                = insert block_id (set (map fst (page_data st)))"
          by (simp add: register_page_def key_set_dict_set)
        moreover have "single_mode (register_page block_id t root_page_id st) = single_mode st"
          by (simp add: register_page_def)
        ultimately show ?thesis
          using page opened multi st' by simp
      next
        case column
        with opened run
        have "\<exists>ids lines. py_iter block_content_ids = Inr ids \<and>
              for_each (on_block (\<lambda>k bd s. process_block w n url root_page_id blocks k bd s)
                          blocks) ids [] st = (Inr lines, st')"
          by (auto simp add: process_block_body_def split: sum.splits prod.splits)
        from children [OF this] column opened show ?thesis
          by auto
      next
        case leaf
        with opened run have "st' = st"
          by (simp add: process_block_body_def split: if_splits)
        with leaf opened multi show ?thesis by simp
      qed
    qed
  qed
qed

lemma extract_pages:
  assumes run: "extract_page_content w (Suc n) url data st = (Inr (Some pc), st')"
    and multi: "\<not> single_mode st"
  shows "\<exists>blocks root_page_id content_ids.
           locate_root data = Inr (Some (blocks, root_page_id)) \<and>
           root_title_and_content blocks root_page_id = Inr (title pc, content_ids) \<and>
           set (map fst (page_data st'))
             = set (map fst (page_data st))
               \<union> pages_of_children (\<lambda>k bd. block_pages n blocks k bd) blocks content_ids"
proof -
  from run obtain blocks root_page_id content_ids lines
    where root: "locate_root data = Inr (Some (blocks, root_page_id))"
      and head: "root_title_and_content blocks root_page_id = Inr (title pc, content_ids)"
      and loop: "for_each
                   (on_block (\<lambda>k bd s. process_block w n url root_page_id blocks k bd s) blocks)
                   content_ids [] st = (Inr lines, st')"
    by (auto simp add: extract_page_content_body_def
          split: sum.splits option.splits prod.splits)
  have "\<forall>k bd s out s'. \<not> single_mode s \<and>
          process_block w n url root_page_id blocks k bd s = (Inr out, s') \<longrightarrow>
          \<not> single_mode s' \<and>
          set (map fst (page_data s'))
            = set (map fst (page_data s)) \<union> block_pages n blocks k bd"
    using process_block_pages by blast
  from children_pages [OF this multi loop] root head show ?thesis
    by blast
qed

text \<open>
  C2, as amended. The \<open>subpages\<close> of the page returned by \<^verbatim>\<open>extract_page_content\<close> are the keys
  of the converter's \<^verbatim>\<open>page_data\<close> after rendering. They begin with all identifiers already
  registered before the call, by pages extracted earlier in the run, in their order. In
  multi-file mode they are, as a set, exactly the identifiers registered before together with
  the identifiers of the page blocks reached while rendering the content of this page; each
  of the latter is a block of type \<open>page\<close> of this page's block table.
\<close>

theorem subpages_are_registered_pages:
  assumes "extract_page_content w (Suc n) url data st = (Inr (Some pc), st')"
  shows "subpages pc = map fst (page_data st') \<and>
         prefix (map fst (page_data st)) (subpages pc) \<and>
         (\<not> single_mode st \<longrightarrow>
            (\<exists>blocks root_page_id content_ids.
               locate_root data = Inr (Some (blocks, root_page_id)) \<and>
               root_title_and_content blocks root_page_id = Inr (title pc, content_ids) \<and>
               set (subpages pc)
                 = set (map fst (page_data st))
                   \<union> pages_of_children (\<lambda>k bd. block_pages n blocks k bd) blocks content_ids \<and>
               (\<forall>k \<in> set (subpages pc).
                  k \<in> set (map fst (page_data st)) \<or> page_typed blocks k)))"
proof -
  from assms have keys: "subpages pc = map fst (page_data st')"
    by (rule extract_subpages)
  from assms have "grows st st'"
    by (rule extract_page_content_grows)
  with keys have kept: "prefix (map fst (page_data st)) (subpages pc)"
    by (simp add: grows_def)
  have "\<exists>blocks root_page_id content_ids.
               locate_root data = Inr (Some (blocks, root_page_id)) \<and>
               root_title_and_content blocks root_page_id = Inr (title pc, content_ids) \<and>
               set (subpages pc)
                 = set (map fst (page_data st))
                   \<union> pages_of_children (\<lambda>k bd. block_pages n blocks k bd) blocks content_ids \<and>
               (\<forall>k \<in> set (subpages pc).
                  k \<in> set (map fst (page_data st)) \<or> page_typed blocks k)"
    if multi: "\<not> single_mode st"
  proof -
    from extract_pages [OF assms multi] obtain blocks root_page_id content_ids
      where root: "locate_root data = Inr (Some (blocks, root_page_id))"
        and head: "root_title_and_content blocks root_page_id = Inr (title pc, content_ids)"
        and reached: "set (map fst (page_data st'))
             = set (map fst (page_data st))
               \<union> pages_of_children (\<lambda>k bd. block_pages n blocks k bd) blocks content_ids"
      by blast
    from extract_registers [OF assms multi] locate_root_blocks [OF root]
    have "set (map fst (page_data st'))
            \<subseteq> set (map fst (page_data st)) \<union> {k. page_typed blocks k}"
      by auto
    with keys have "\<forall>k \<in> set (subpages pc).
                  k \<in> set (map fst (page_data st)) \<or> page_typed blocks k"
      by auto
    with root head reached keys show ?thesis
      by auto
  qed
  with keys kept show ?thesis
    by blast
qed

text \<open>
  C2, as amended, at page \<open>B\<close> of the diamond, extracted after page \<open>A\<close> has registered its
  page blocks \<open>b\<close> and \<open>c\<close>: the subpages are \<open>b\<close>, \<open>c\<close> and the newly reached \<open>d\<close>.
\<close>

theorem subpages_are_registered_pages_witness:
  "extract_page_content diamond (Suc 2) ''https://n.so/B-b''
       (payload ''b'' [(''b'', block_entry ''page'' ''B'' [''d'']),
                       (''d'', block_entry ''page'' ''D'' [])])
       \<lparr>output_dir = ''out'', single_mode = False, visited_pages = {},
        page_data = [(''b'', ''B'', JStr ''a''), (''c'', ''C'', JStr ''a'')],
        downloads = [], files = []\<rparr>
     = (Inr (Some \<lparr>title = ''B'', content = ''[D](./D/D.md)'', subpages = [''b'', ''c'', ''d'']\<rparr>),
        \<lparr>output_dir = ''out'', single_mode = False, visited_pages = {},
         page_data = [(''b'', ''B'', JStr ''a''), (''c'', ''C'', JStr ''a''),
                      (''d'', ''D'', JStr ''b'')],
         downloads = [], files = []\<rparr>) \<and>
   prefix [''b'', ''c''] [''b'', ''c'', ''d''] \<and>
   locate_root (payload ''b'' [(''b'', block_entry ''page'' ''B'' [''d'']),
                               (''d'', block_entry ''page'' ''D'' [])])
     = Inr (Some ([(''b'', block_entry ''page'' ''B'' [''d'']),
                   (''d'', block_entry ''page'' ''D'' [])], JStr ''b'')) \<and>
   root_title_and_content
       [(''b'', block_entry ''page'' ''B'' [''d'']), (''d'', block_entry ''page'' ''D'' [])]
       (JStr ''b'')
     = Inr (''B'', [JStr ''d'']) \<and>
   pages_of_children
       (\<lambda>k bd. block_pages 2
                  [(''b'', block_entry ''page'' ''B'' [''d'']),
                   (''d'', block_entry ''page'' ''D'' [])] k bd)
       [(''b'', block_entry ''page'' ''B'' [''d'']), (''d'', block_entry ''page'' ''D'' [])]
       [JStr ''d'']
     = {''d''} \<and>
   page_typed [(''b'', block_entry ''page'' ''B'' [''d'']), (''d'', block_entry ''page'' ''D'' [])]
     ''d''"
proof -
  have run: "extract_page_content diamond (Suc 2) ''https://n.so/B-b''
       (payload ''b'' [(''b'', block_entry ''page'' ''B'' [''d'']),
                       (''d'', block_entry ''page'' ''D'' [])])
       \<lparr>output_dir = ''out'', single_mode = False, visited_pages = {},
        page_data = [(''b'', ''B'', JStr ''a''), (''c'', ''C'', JStr ''a'')],
        downloads = [], files = []\<rparr>
     = (Inr (Some \<lparr>title = ''B'', content = ''[D](./D/D.md)'', subpages = [''b'', ''c'', ''d'']\<rparr>),
        \<lparr>output_dir = ''out'', single_mode = False, visited_pages = {},
         page_data = [(''b'', ''B'', JStr ''a''), (''c'', ''C'', JStr ''a''),
                      (''d'', ''D'', JStr ''b'')],
         downloads = [], files = []\<rparr>)"
    by (simp add: eval_nat_numeral diamond_def diamond_pages_def run_defs)
  have root: "locate_root (payload ''b'' [(''b'', block_entry ''page'' ''B'' [''d'']),
                               (''d'', block_entry ''page'' ''D'' [])])
     = Inr (Some ([(''b'', block_entry ''page'' ''B'' [''d'']),
                   (''d'', block_entry ''page'' ''D'' [])], JStr ''b''))"
    by (simp add: locate_root_def find_root_def payload_def)
  have head: "root_title_and_content
       [(''b'', block_entry ''page'' ''B'' [''d'']), (''d'', block_entry ''page'' ''D'' [])]
       (JStr ''b'')
     = Inr (''B'', [JStr ''d''])"
    by (simp add: root_title_and_content_def inner_block_def plain_property_def
          extract_text_from_property_def block_entry_def)
  have reached: "pages_of_children
       (\<lambda>k bd. block_pages 2
                  [(''b'', block_entry ''page'' ''B'' [''d'']),
                   (''d'', block_entry ''page'' ''D'' [])] k bd)
       [(''b'', block_entry ''page'' ''B'' [''d'']), (''d'', block_entry ''page'' ''D'' [])]
       [JStr ''d'']
     = {''d''}"
    by (simp add: pages_of_children_def eval_nat_numeral open_block_def block_entry_def)
  have typed: "page_typed
       [(''b'', block_entry ''page'' ''B'' [''d'']), (''d'', block_entry ''page'' ''D'' [])] ''d''"
    by (simp add: page_typed_def open_block_def block_entry_def)
  from subpages_are_registered_pages [OF run] run root head reached typed show ?thesis
    by simp
qed

text \<open>
  C2 as stated fails on the diamond crawled from \<open>A\<close>: the content of page \<open>D\<close> is one text
  block, and its subpages are the page blocks \<open>b\<close>, \<open>c\<close> and \<open>d\<close> registered while the pages
  \<open>A\<close> and \<open>B\<close> were rendered; the subpages of \<open>B\<close> hold \<open>b\<close> and \<open>c\<close>, registered by \<open>A\<close>.
\<close>

theorem accumulated_subpages_counterexample:
  "map (\<lambda>pc. (title pc, content pc, subpages pc))
       (projr (fst (process_page diamond 6 ''https://n.so/A-a'' '''' True True
                      (init_converter ''out'' False))))
     = [(''A'', ''[B](./B/B.md)'' @ nl @ nl @ ''[C](./C/C.md)'', [''b'', ''c'']),
        (''B'', ''[D](./D/D.md)'', [''b'', ''c'', ''d'']),
        (''D'', ''leaf'', [''b'', ''c'', ''d'']),
        (''C'', ''[D](./D/D.md)'', [''b'', ''c'', ''d''])]"
  by (simp add: diamond_crawl)

end
